theory Spec2Isabelle
  imports Main "HOL-Library.Sublist"
begin

section \<open>Python strings\<close>

text \<open>
  A Python \<open>str\<close> is a sequence of Unicode code points, and \<open>len\<close> counts code points.
  A code point is a natural number here, so that the characters outside ASCII that the
  tables of the repository use (n-tilde U+00F1, the acute accent U+00B4, the em dash
  U+2014, ...) are one element each. \<open>str\<close> turns an ASCII literal into its code points.
\<close>

type_synonym codepoint = nat
type_synonym pystr = "codepoint list"

definition str :: "string \<Rightarrow> pystr" where
  "str cs = map of_char cs"

text \<open>\<open>s.startswith(p)\<close>.\<close>

definition startswith :: "pystr \<Rightarrow> pystr \<Rightarrow> bool" where
  "startswith s p = prefix p s"

text \<open>
  The character database of Python (\<open>unicodedata\<close>) is not part of the repository. The
  functions below take it as a parameter \<open>U\<close>: the classification of one code point by
  \<open>str.isalpha\<close>, \<open>str.isdigit\<close>, \<open>str.isalnum\<close> and \<open>str.isspace\<close>, the value of a decimal
  digit (the code points that \<open>\d\<close> matches and \<open>int\<close> reads) and the case mappings of
  one code point, which may be several code points long. Every theorem holds for every
  such database; \<open>ascii\<close> below is the database restricted to ASCII, used to run examples
  on ASCII input.
\<close>

record unicode =
  alpha :: "codepoint \<Rightarrow> bool"
  digit :: "codepoint \<Rightarrow> bool"
  alnum :: "codepoint \<Rightarrow> bool"
  space :: "codepoint \<Rightarrow> bool"
  decimal :: "codepoint \<Rightarrow> nat option"
  to_upper :: "codepoint \<Rightarrow> pystr"
  to_lower :: "codepoint \<Rightarrow> pystr"

definition isalpha :: "unicode \<Rightarrow> pystr \<Rightarrow> bool" where
  "isalpha U s = (s \<noteq> [] \<and> list_all (alpha U) s)"

definition isdigit :: "unicode \<Rightarrow> pystr \<Rightarrow> bool" where
  "isdigit U s = (s \<noteq> [] \<and> list_all (digit U) s)"

definition isalnum :: "unicode \<Rightarrow> pystr \<Rightarrow> bool" where
  "isalnum U s = (s \<noteq> [] \<and> list_all (alnum U) s)"

text \<open>
  \<open>s.upper()\<close> and \<open>s.lower()\<close>. The repository calls them on strings of length one only,
  where the mapping of the single code point is the whole result.
\<close>

definition upper :: "unicode \<Rightarrow> pystr \<Rightarrow> pystr" where
  "upper U s = concat (map (to_upper U) s)"

definition lower :: "unicode \<Rightarrow> pystr \<Rightarrow> pystr" where
  "lower U s = concat (map (to_lower U) s)"

definition ascii :: unicode where
  "ascii = \<lparr>
     alpha = (\<lambda>c. (65 \<le> c \<and> c \<le> 90) \<or> (97 \<le> c \<and> c \<le> 122)),
     digit = (\<lambda>c. 48 \<le> c \<and> c \<le> 57),
     alnum = (\<lambda>c. (48 \<le> c \<and> c \<le> 57) \<or> (65 \<le> c \<and> c \<le> 90) \<or> (97 \<le> c \<and> c \<le> 122)),
     space = (\<lambda>c. (9 \<le> c \<and> c \<le> 13) \<or> (28 \<le> c \<and> c \<le> 32)),
     decimal = (\<lambda>c. if 48 \<le> c \<and> c \<le> 57 then Some (c - 48) else None),
     to_upper = (\<lambda>c. if 97 \<le> c \<and> c \<le> 122 then [c - 32] else [c]),
     to_lower = (\<lambda>c. if 65 \<le> c \<and> c \<le> 90 then [c + 32] else [c]) \<rparr>"

text \<open>
  Truth value of an \<open>Optional[str]\<close>: \<open>None\<close> and the empty string are false
  (\<open>if not ch\<close>, \<open>if not qmk_base\<close>, \<open>x or y\<close>).
\<close>

fun falsy :: "pystr option \<Rightarrow> bool" where
  "falsy None = True"
| "falsy (Some s) = (s = [])"

datatype error = IndexError

section \<open>Symbol tables (kbmap_qmk_helper.py, keymap_programming_keys.py)\<close>

definition DEAD_PREFIX :: pystr where
  "DEAD_PREFIX = str ''dead_''"

definition NoSymbol :: pystr where
  "NoSymbol = str ''NoSymbol''"

text \<open>
  A dict literal is the list of its items, read with \<open>map_of\<close>; no key occurs twice in
  any table of the repository. Values outside the letters are written as code points:
  92 backslash, 96 backtick, 34 double quote, 39 apostrophe, 161 inverted exclamation
  mark, 191 inverted question mark, 176 degree, 172 not sign, 241 and 209 n-tilde,
  180 acute accent.
\<close>

definition KEYSYM_TO_CHAR_qmk :: "(pystr \<times> pystr) list" where
  "KEYSYM_TO_CHAR_qmk =
    [(str ''parenleft'', str ''(''), (str ''parenright'', str '')''),
     (str ''bracketleft'', str ''[''), (str ''bracketright'', str '']''),
     (str ''braceleft'', str ''{''), (str ''braceright'', str ''}''),
     (str ''less'', str ''<''), (str ''greater'', str ''>''),
     (str ''slash'', str ''/''), (str ''backslash'', [92]), (str ''bar'', str ''|''),
     (str ''asciitilde'', str ''~''), (str ''asciicircum'', str ''^''), (str ''grave'', [96]),
     (str ''at'', str ''@''), (str ''numbersign'', str ''#''), (str ''dollar'', str ''$''),
     (str ''percent'', str ''%''), (str ''ampersand'', str ''&''), (str ''asterisk'', str ''*''),
     (str ''minus'', str ''-''), (str ''underscore'', str ''_''),
     (str ''equal'', str ''=''), (str ''plus'', str ''+''),
     (str ''semicolon'', str '';''), (str ''colon'', str '':''),
     (str ''quotedbl'', [34]), (str ''apostrophe'', [39]),
     (str ''comma'', str '',''), (str ''period'', str ''.''),
     (str ''question'', str ''?''), (str ''exclam'', str ''!''),
     (str ''exclamdown'', [161]), (str ''questiondown'', [191]),
     (str ''degree'', [176]), (str ''notsign'', [172]),
     (str ''space'', str '' ''),
     (str ''ntilde'', [241]), (str ''Ntilde'', [209]),
     (str ''dead_grave'', [96]),
     (str ''dead_acute'', [180]),
     (str ''dead_tilde'', str ''~'')]"

definition KEYSYM_TO_CHAR_pk :: "(pystr \<times> pystr) list" where
  "KEYSYM_TO_CHAR_pk =
    [(str ''parenleft'', str ''(''), (str ''parenright'', str '')''),
     (str ''bracketleft'', str ''[''), (str ''bracketright'', str '']''),
     (str ''braceleft'', str ''{''), (str ''braceright'', str ''}''),
     (str ''less'', str ''<''), (str ''greater'', str ''>''),
     (str ''slash'', str ''/''), (str ''backslash'', [92]),
     (str ''bar'', str ''|''), (str ''asciitilde'', str ''~''),
     (str ''asciicircum'', str ''^''), (str ''grave'', [96]),
     (str ''at'', str ''@''), (str ''numbersign'', str ''#''), (str ''dollar'', str ''$''),
     (str ''percent'', str ''%''), (str ''ampersand'', str ''&''), (str ''asterisk'', str ''*''),
     (str ''minus'', str ''-''), (str ''underscore'', str ''_''),
     (str ''equal'', str ''=''), (str ''plus'', str ''+''),
     (str ''semicolon'', str '';''), (str ''colon'', str '':''),
     (str ''quotedbl'', [34]), (str ''apostrophe'', [39]),
     (str ''comma'', str '',''), (str ''period'', str ''.''),
     (str ''question'', str ''?''), (str ''exclam'', str ''!''),
     (str ''exclamdown'', [161]), (str ''questiondown'', [191]),
     (str ''degree'', [176]), (str ''notsign'', [172]),
     (str ''ntilde'', [241]), (str ''Ntilde'', [209]),
     (str ''space'', str '' '')]"

text \<open>\<open>keysym_to_char\<close> of kbmap_qmk_helper.py (lines 88-96).\<close>

definition keysym_to_char_qmk :: "pystr \<Rightarrow> pystr option" where
  "keysym_to_char_qmk ksym =
    (if startswith ksym DEAD_PREFIX then Some ksym
     else case map_of KEYSYM_TO_CHAR_qmk ksym of
       Some ch \<Rightarrow> Some ch
     | None \<Rightarrow> if length ksym = 1 then Some ksym else None)"

text \<open>
  \<open>keysym_to_char\<close> of keymap_programming_keys.py (lines 123-138), with its three
  tests of the length in the order of the source.
\<close>

definition keysym_to_char_pk :: "unicode \<Rightarrow> pystr \<Rightarrow> pystr option" where
  "keysym_to_char_pk U ksym =
    (if startswith ksym DEAD_PREFIX then Some ksym
     else case map_of KEYSYM_TO_CHAR_pk ksym of
       Some ch \<Rightarrow> Some ch
     | None \<Rightarrow>
         if length ksym = 1 then Some ksym
         else if length ksym = 1 \<and> isalpha U ksym then Some ksym
         else if length ksym = 1 then Some ksym
         else None)"

section \<open>The reverse index\<close>

text \<open>
  The keymap is a dict from key code to the row of the key, in insertion order (the
  order in which \<open>items()\<close> yields it). An occurrence is the tuple
  \<open>(code, lvl, ksym, tuple(syms))\<close>; the index is a \<open>defaultdict(list)\<close>, whose keys are
  the characters that received an occurrence.
\<close>

type_synonym keymap = "(int \<times> pystr list) list"
type_synonym occurrence = "int \<times> nat \<times> pystr \<times> pystr list"
type_synonym positions = "pystr \<Rightarrow> occurrence list option"

definition occ_level :: "occurrence \<Rightarrow> nat" where
  "occ_level t = fst (snd t)"

text \<open>\<open>pos[ch].append(e)\<close> on a \<open>defaultdict(list)\<close>.\<close>

definition append_occurrence :: "positions \<Rightarrow> pystr \<Rightarrow> occurrence \<Rightarrow> positions" where
  "append_occurrence pos ch e = pos(ch \<mapsto> (case pos ch of None \<Rightarrow> [] | Some es \<Rightarrow> es) @ [e])"

text \<open>
  \<open>build_positions\<close> of kbmap_qmk_helper.py (lines 124-134): the inner loop over
  \<open>enumerate(syms)\<close>, the outer loop over \<open>keymap.items()\<close>.
\<close>

fun scan_row_qmk :: "int \<Rightarrow> pystr list \<Rightarrow> (nat \<times> pystr) list \<Rightarrow> positions \<Rightarrow> positions" where
  "scan_row_qmk code syms [] pos = pos"
| "scan_row_qmk code syms ((lvl, ksym) # rest) pos =
    (if ksym = NoSymbol then scan_row_qmk code syms rest pos
     else case keysym_to_char_qmk ksym of
       None \<Rightarrow> scan_row_qmk code syms rest pos
     | Some ch \<Rightarrow>
         if ch = [] \<or> startswith ch DEAD_PREFIX then scan_row_qmk code syms rest pos
         else scan_row_qmk code syms rest (append_occurrence pos ch (code, lvl, ksym, syms)))"

fun build_positions_from :: "keymap \<Rightarrow> positions \<Rightarrow> positions" where
  "build_positions_from [] pos = pos"
| "build_positions_from ((code, syms) # km) pos =
    build_positions_from km (scan_row_qmk code syms (enumerate 0 syms) pos)"

definition build_positions :: "keymap \<Rightarrow> positions" where
  "build_positions km = build_positions_from km Map.empty"

text \<open>\<open>find_char_positions\<close> of keymap_programming_keys.py (lines 160-177).\<close>

fun scan_row_pk :: "unicode \<Rightarrow> int \<Rightarrow> pystr list \<Rightarrow> (nat \<times> pystr) list \<Rightarrow> positions \<Rightarrow> positions" where
  "scan_row_pk U code syms [] pos = pos"
| "scan_row_pk U code syms ((lvl, ksym) # rest) pos =
    (if ksym = NoSymbol then scan_row_pk U code syms rest pos
     else case keysym_to_char_pk U ksym of
       None \<Rightarrow> scan_row_pk U code syms rest pos
     | Some ch \<Rightarrow>
         if ch = [] then scan_row_pk U code syms rest pos
         else if startswith ch DEAD_PREFIX then scan_row_pk U code syms rest pos
         else scan_row_pk U code syms rest (append_occurrence pos ch (code, lvl, ksym, syms)))"

fun find_char_positions_from :: "unicode \<Rightarrow> keymap \<Rightarrow> positions \<Rightarrow> positions" where
  "find_char_positions_from U [] pos = pos"
| "find_char_positions_from U ((code, syms) # km) pos =
    find_char_positions_from U km (scan_row_pk U code syms (enumerate 0 syms) pos)"

definition find_char_positions :: "unicode \<Rightarrow> keymap \<Rightarrow> positions" where
  "find_char_positions U km = find_char_positions_from U km Map.empty"

section \<open>Reading the raw mapping\<close>

text \<open>
  \<open>pke.splitlines()\<close>: the line boundaries of Python are LF, VT, FF, CR, FS, GS, RS, NEL,
  LS and PS, and CR LF counts as one. \<open>cur\<close> is the line read so far.
\<close>

definition linebreaks :: "codepoint list" where
  "linebreaks = [10, 11, 12, 13, 28, 29, 30, 133, 8232, 8233]"

fun splitlines_from :: "pystr \<Rightarrow> pystr \<Rightarrow> pystr list" where
  "splitlines_from cur [] = (if cur = [] then [] else [cur])"
| "splitlines_from cur (c # cs) =
    (if c = 13 \<and> cs \<noteq> [] \<and> hd cs = 10 then cur # splitlines_from [] (tl cs)
     else if c \<in> set linebreaks then cur # splitlines_from [] cs
     else splitlines_from (cur @ [c]) cs)"

definition splitlines :: "pystr \<Rightarrow> pystr list" where
  "splitlines s = splitlines_from [] s"

text \<open>\<open>s.strip()\<close> and \<open>s.split()\<close>, on the whitespace of the database.\<close>

definition strip :: "unicode \<Rightarrow> pystr \<Rightarrow> pystr" where
  "strip U s = rev (dropWhile (space U) (rev (dropWhile (space U) s)))"

fun split_from :: "unicode \<Rightarrow> pystr \<Rightarrow> pystr \<Rightarrow> pystr list" where
  "split_from U cur [] = (if cur = [] then [] else [cur])"
| "split_from U cur (c # cs) =
    (if space U c then (if cur = [] then split_from U [] cs else cur # split_from U [] cs)
     else split_from U (cur @ [c]) cs)"

definition split :: "unicode \<Rightarrow> pystr \<Rightarrow> pystr list" where
  "split U s = split_from U [] s"

text \<open>
  \<open>pat.match(s)\<close> for \<open>pat = re.compile(r"^keycode\s+(\d+)\s+=\s+(.*)$")\<close>: the two groups
  of the match, or \<open>None\<close>. The scan takes each run of whitespace and of digits whole; it
  is the match of the regular expression because no code point of Unicode is both
  whitespace and a decimal digit, and \<open>=\<close> (61) is neither. The dot does not match LF (10),
  and \<open>$\<close> also matches before a final LF.
\<close>

definition pke_match :: "unicode \<Rightarrow> pystr \<Rightarrow> (pystr \<times> pystr) option" where
  "pke_match U s =
    (if \<not> startswith s (str ''keycode'') then None
     else
       let r1 = drop 7 s;
           r2 = dropWhile (space U) r1;
           g1 = takeWhile (\<lambda>c. decimal U c \<noteq> None) r2;
           r3 = dropWhile (\<lambda>c. decimal U c \<noteq> None) r2;
           r4 = dropWhile (space U) r3
       in
         if takeWhile (space U) r1 = [] \<or> g1 = [] \<or> takeWhile (space U) r3 = [] then None
         else case r4 of
           [] \<Rightarrow> None
         | c # r5 \<Rightarrow>
             if c \<noteq> 61 \<or> takeWhile (space U) r5 = [] then None
             else
               let r6 = dropWhile (space U) r5 in
                 if 10 \<in> set (butlast r6) then None
                 else if r6 \<noteq> [] \<and> last r6 = 10 then Some (g1, butlast r6)
                 else Some (g1, r6))"

text \<open>\<open>int(m.group(1))\<close> on a string of decimal digits.\<close>

definition int_of_digits :: "unicode \<Rightarrow> pystr \<Rightarrow> int" where
  "int_of_digits U ds =
    foldl (\<lambda>a c. 10 * a + (case decimal U c of Some d \<Rightarrow> int d | None \<Rightarrow> 0)) 0 ds"

text \<open>
  \<open>d[k] = v\<close> on a dict: a key that is present keeps its place in the order of the items.
\<close>

fun dict_set :: "('k \<times> 'v) list \<Rightarrow> 'k \<Rightarrow> 'v \<Rightarrow> ('k \<times> 'v) list" where
  "dict_set [] k v = [(k, v)]"
| "dict_set ((k', v') # d) k v = (if k' = k then (k, v) # d else (k', v') # dict_set d k v)"

text \<open>\<open>while len(syms) < 4: syms.append("NoSymbol")\<close>.\<close>

function pad4 :: "pystr list \<Rightarrow> pystr list" where
  "pad4 syms = (if length syms < 4 then pad4 (syms @ [NoSymbol]) else syms)"
  by pat_completeness auto
termination
  by (relation "measure (\<lambda>syms. 4 - length syms)") auto

declare pad4.simps [simp del]

text \<open>
  \<open>parse_xmodmap_pke\<close> of kbmap_qmk_helper.py (lines 98-111). The text \<open>pke\<close> is what
  \<open>run("xmodmap -pke")\<close> returned; the loop runs over its lines with the keymap built
  so far.
\<close>

fun parse_xmodmap_pke_lines :: "unicode \<Rightarrow> pystr list \<Rightarrow> keymap \<Rightarrow> keymap" where
  "parse_xmodmap_pke_lines U [] km = km"
| "parse_xmodmap_pke_lines U (line # rest) km =
    (case pke_match U (strip U line) of
       None \<Rightarrow> parse_xmodmap_pke_lines U rest km
     | Some (g1, g2) \<Rightarrow>
         let code = int_of_digits U g1;
             syms = filter (\<lambda>t. t \<noteq> []) (split U g2);
             syms = pad4 syms
         in parse_xmodmap_pke_lines U rest (dict_set km code (take 4 syms)))"

definition parse_xmodmap_pke :: "unicode \<Rightarrow> pystr \<Rightarrow> keymap" where
  "parse_xmodmap_pke U pke = parse_xmodmap_pke_lines U (splitlines pke) []"

text \<open>\<open>parse_pke\<close> of keymap_programming_keys.py (lines 99-121).\<close>

fun parse_pke_lines :: "unicode \<Rightarrow> pystr list \<Rightarrow> keymap \<Rightarrow> keymap" where
  "parse_pke_lines U [] km = km"
| "parse_pke_lines U (line # rest) km =
    (case pke_match U (strip U line) of
       None \<Rightarrow> parse_pke_lines U rest km
     | Some (g1, g2) \<Rightarrow>
         let code = int_of_digits U g1;
             syms = filter (\<lambda>t. t \<noteq> []) (split U g2);
             syms = pad4 syms
         in parse_pke_lines U rest (dict_set km code (take 4 syms)))"

definition parse_pke :: "unicode \<Rightarrow> pystr \<Rightarrow> keymap" where
  "parse_pke U pke = parse_pke_lines U (splitlines pke) []"

section \<open>Resolving a character (kbmap_qmk_helper.py)\<close>

text \<open>
  \<open>BASE_KEYSYM_TO_QMK\<close> (lines 67-86). The first comprehension runs over the letters
  a-z (97-122), whose \<open>upper()\<close> is the code point minus 32; the second over the digits.
\<close>

definition BASE_KEYSYM_TO_QMK_qmk :: "(pystr \<times> pystr) list" where
  "BASE_KEYSYM_TO_QMK_qmk =
    map (\<lambda>c. ([c], str ''KC_'' @ [c - 32])) [97..<123] @
    [(str ''ntilde'', str ''KC_SCLN'')] @
    map (\<lambda>d. ([48 + d], str ''KC_'' @ [48 + d])) [0..<10] @
    [(str ''minus'', str ''KC_MINS''),
     (str ''equal'', str ''KC_EQL''),
     (str ''bracketleft'', str ''KC_LBRC''),
     (str ''bracketright'', str ''KC_RBRC''),
     (str ''backslash'', str ''KC_BSLS''),
     (str ''slash'', str ''KC_SLSH''),
     (str ''semicolon'', str ''KC_SCLN''),
     (str ''apostrophe'', str ''KC_QUOT''),
     (str ''comma'', str ''KC_COMM''),
     (str ''period'', str ''KC_DOT''),
     (str ''grave'', str ''KC_GRV''),
     (str ''space'', str ''KC_SPC'')]"

text \<open>\<open>level_to_combo\<close> (lines 113-114) and \<open>lvl_to_combo\<close> (lines 179-185): \<open>dict.get(lvl, "")\<close>.\<close>

definition level_to_combo :: "nat \<Rightarrow> pystr" where
  "level_to_combo lvl =
    (case map_of [(0, []), (1, str ''Shift+''), (2, str ''AltGr+''), (3, str ''Shift+AltGr+'')] lvl of
       Some s \<Rightarrow> s
     | None \<Rightarrow> [])"

definition lvl_to_combo :: "nat \<Rightarrow> pystr" where
  "lvl_to_combo lvl =
    (case map_of [(0, []), (1, str ''Shift+''), (2, str ''AltGr+''), (3, str ''Shift+AltGr+'')] lvl of
       Some s \<Rightarrow> s
     | None \<Rightarrow> [])"

text \<open>
  \<open>prefer_key_label\<close> of kbmap_qmk_helper.py (lines 116-122). \<open>level_syms[i]\<close> raises
  \<open>IndexError\<close> past the end of the row; the loop over \<open>[0,1,2,3]\<close> yields the label it
  returns, or \<open>None\<close> when it ran to its end. \<open>x or y\<close> is \<open>y\<close> when \<open>x\<close> is false.
\<close>

fun label_loop_qmk :: "pystr list \<Rightarrow> nat list \<Rightarrow> error + pystr option" where
  "label_loop_qmk level_syms [] = Inr None"
| "label_loop_qmk level_syms (i # rest) =
    (if length level_syms \<le> i then Inl IndexError
     else case keysym_to_char_qmk (level_syms ! i) of
       None \<Rightarrow> label_loop_qmk level_syms rest
     | Some ch \<Rightarrow>
         if ch \<noteq> [] \<and> \<not> startswith ch DEAD_PREFIX then Inr (Some ch)
         else label_loop_qmk level_syms rest)"

fun or_else :: "pystr option \<Rightarrow> pystr \<Rightarrow> pystr" where
  "or_else None y = y"
| "or_else (Some x) y = (if x = [] then y else x)"

definition prefer_key_label_qmk :: "pystr list \<Rightarrow> error + pystr" where
  "prefer_key_label_qmk level_syms =
    (case label_loop_qmk level_syms [0, 1, 2, 3] of
       Inl e \<Rightarrow> Inl e
     | Inr (Some ch) \<Rightarrow> Inr ch
     | Inr None \<Rightarrow>
         (case level_syms of
            [] \<Rightarrow> Inl IndexError
          | s0 # _ \<Rightarrow> Inr (or_else (keysym_to_char_qmk s0) s0)))"

text \<open>
  \<open>qmk_combo_for\<close> (lines 136-175) in two parts. \<open>qmk_base_for\<close> is the computation of
  \<open>qmk_base\<close> (lines 141-163): the direct rule for a letter or a digit, the table, then
  the label of the row, then the marker. \<open>qmk_combo_for\<close> stacks the modifiers on it.
\<close>

definition unknown_base :: "pystr \<Rightarrow> pystr" where
  "unknown_base base_keysym = str ''<KC_BASE_DESCONOCIDA:keysym='' @ base_keysym @ str ''>''"

definition qmk_base_last_chance :: "unicode \<Rightarrow> pystr \<Rightarrow> pystr list \<Rightarrow> error + pystr" where
  "qmk_base_last_chance U base_keysym level_syms =
    (case prefer_key_label_qmk level_syms of
       Inl e \<Rightarrow> Inl e
     | Inr key_label \<Rightarrow>
         if length key_label = 1 \<and> isalpha U key_label then Inr (str ''KC_'' @ upper U key_label)
         else if length key_label = 1 \<and> isdigit U key_label then Inr (str ''KC_'' @ key_label)
         else Inr (unknown_base base_keysym))"

definition base_keysym_of :: "pystr \<Rightarrow> pystr \<Rightarrow> pystr" where
  "base_keysym_of s0 ksym = (if s0 \<noteq> NoSymbol then s0 else ksym)"

definition qmk_base_direct :: "unicode \<Rightarrow> pystr \<Rightarrow> pystr option" where
  "qmk_base_direct U base_keysym =
    (if length base_keysym = 1 \<and> isalpha U base_keysym then Some (str ''KC_'' @ upper U base_keysym)
     else if length base_keysym = 1 \<and> isdigit U base_keysym then Some (str ''KC_'' @ base_keysym)
     else map_of BASE_KEYSYM_TO_QMK_qmk base_keysym)"

definition qmk_base_for :: "unicode \<Rightarrow> pystr \<Rightarrow> pystr list \<Rightarrow> error + pystr" where
  "qmk_base_for U ksym level_syms =
    (case level_syms of
       [] \<Rightarrow> Inl IndexError
     | s0 # _ \<Rightarrow>
         let base_keysym = base_keysym_of s0 ksym;
             qmk_base = qmk_base_direct U base_keysym
         in (case qmk_base of
               None \<Rightarrow> qmk_base_last_chance U base_keysym level_syms
             | Some kc \<Rightarrow> if kc = [] then qmk_base_last_chance U base_keysym level_syms else Inr kc))"

definition qmk_combo_for :: "unicode \<Rightarrow> occurrence \<Rightarrow> error + (pystr \<times> pystr \<times> pystr)" where
  "qmk_combo_for U code_entry =
    (case code_entry of (code, lvl, ksym, level_syms) \<Rightarrow>
       let combo_humano = level_to_combo lvl in
       (case qmk_base_for U ksym level_syms of
          Inl e \<Rightarrow> Inl e
        | Inr qmk_base \<Rightarrow>
            let qmk =
              (if lvl = 0 then qmk_base
               else if lvl = 1 then str ''S('' @ qmk_base @ str '')''
               else if lvl = 2 then str ''RALT('' @ qmk_base @ str '')''
               else str ''S(RALT('' @ qmk_base @ str ''))'')
            in Inr (combo_humano, ksym, qmk)))"

section \<open>The batch loops of the two programs\<close>

text \<open>\<open>list(s)\<close>: the one-character strings of \<open>s\<close>.\<close>

definition chars_of :: "pystr \<Rightarrow> pystr list" where
  "chars_of s = map (\<lambda>c. [c]) s"

text \<open>The raw string of programming symbols that both \<open>WANTED_CHARS\<close> share.\<close>

definition PROGRAMMING_SYMBOLS :: pystr where
  "PROGRAMMING_SYMBOLS =
    str ''[]{}()<>/'' @ [92] @ str ''|~^'' @ [96] @ str ''@#$%&*+-_=;:,'' @ [34, 39] @ str ''!?.''"

definition WANTED_CHARS_qmk :: "pystr list" where
  "WANTED_CHARS_qmk =
    chars_of (str ''abcdefghijklmnopqrstuvwxyz'') @ [[241]] @
    chars_of (str ''ABCDEFGHIJKLMNOPQRSTUVWXYZ'') @ [[209]] @
    chars_of (str ''0123456789'') @
    chars_of PROGRAMMING_SYMBOLS @
    [[191], [161], [176], [172], [180]] @
    [str ''@'', [96], [241], [209]]"

definition WANTED_CHARS_pk :: "pystr list" where
  "WANTED_CHARS_pk =
    chars_of (str ''abcdefghijklmnopqrstuvwxyz'') @ [[241]] @
    chars_of (str ''0123456789'') @
    chars_of PROGRAMMING_SYMBOLS @
    [[191], [161], [176], [172]]"

text \<open>
  \<open>found.sort(key=lambda t: t[1])\<close> and \<open>sorted(found, key=lambda t: t[1])\<close>: Python sorts
  stably, as the insertion sort \<open>sort_key\<close> does. \<open>first_of xs\<close> is \<open>xs[0]\<close>, and
  \<open>found_list\<close> reads the result of \<open>positions.get(c)\<close>, which the test \<open>if not found\<close>
  takes for absent when it is \<open>None\<close> or empty.
\<close>

definition sort_by_level :: "occurrence list \<Rightarrow> occurrence list" where
  "sort_by_level found = sort_key occ_level found"

definition first_of :: "'a list \<Rightarrow> error + 'a" where
  "first_of xs = (case xs of [] \<Rightarrow> Inl IndexError | x # _ \<Rightarrow> Inr x)"

fun found_list :: "occurrence list option \<Rightarrow> occurrence list" where
  "found_list None = []"
| "found_list (Some found) = found"

text \<open>The em dash U+2014 that stands for an empty field.\<close>

definition DASH :: pystr where
  "DASH = [8212]"

text \<open>
  The loop of \<open>main\<close> in kbmap_qmk_helper.py (lines 210-219). \<open>found.sort\<close> sorts the list
  held by the index in place, so the index is part of the state of the loop.
\<close>

definition row_qmk :: "unicode \<Rightarrow> pystr \<Rightarrow> occurrence \<Rightarrow> error + pystr list" where
  "row_qmk U c e =
    (case qmk_combo_for U e of
       Inl err \<Rightarrow> Inl err
     | Inr (combo_hum, keysym, qmk) \<Rightarrow>
         (case prefer_key_label_qmk (snd (snd (snd e))) of
            Inl err \<Rightarrow> Inl err
          | Inr key_label \<Rightarrow>
              Inr [c, if combo_hum \<noteq> [] then butlast combo_hum else DASH, keysym, qmk, key_label]))"

fun main_rows_qmk :: "unicode \<Rightarrow> pystr list \<Rightarrow> positions \<Rightarrow> pystr list list \<Rightarrow> error + pystr list list" where
  "main_rows_qmk U [] positions rows = Inr rows"
| "main_rows_qmk U (c # rest) positions rows =
    (if found_list (positions c) = [] then main_rows_qmk U rest positions rows
     else
       let found = sort_by_level (found_list (positions c)) in
       case first_of found of
         Inl err \<Rightarrow> Inl err
       | Inr e \<Rightarrow>
           (case row_qmk U c e of
              Inl err \<Rightarrow> Inl err
            | Inr row \<Rightarrow> main_rows_qmk U rest (positions(c \<mapsto> found)) (rows @ [row])))"

text \<open>
  \<open>prefer_key_label\<close> of keymap_programming_keys.py (lines 144-158). \<open>ch in s\<close> on strings
  is the test for a substring.
\<close>

definition LABEL_SYMBOLS :: pystr where
  "LABEL_SYMBOLS =
    str ''-_=+[]{}()<>/'' @ [92, 92] @ str ''|;:'' @ [39, 92, 34] @ str '',.#!?@^~'' @ [96] @
    str ''%$&*'' @ [176, 172, 191, 161] @ str '' ''"

fun label_loop_pk :: "unicode \<Rightarrow> pystr list \<Rightarrow> nat list \<Rightarrow> error + pystr option" where
  "label_loop_pk U level_syms [] = Inr None"
| "label_loop_pk U level_syms (i # rest) =
    (if length level_syms \<le> i then Inl IndexError
     else case keysym_to_char_pk U (level_syms ! i) of
       None \<Rightarrow> label_loop_pk U level_syms rest
     | Some ch \<Rightarrow>
         if ch \<noteq> [] \<and> \<not> startswith ch DEAD_PREFIX \<and>
            length ch = 1 \<and> (isalnum U ch \<or> sublist ch LABEL_SYMBOLS)
         then Inr (Some ch)
         else label_loop_pk U level_syms rest)"

definition prefer_key_label_pk :: "unicode \<Rightarrow> pystr list \<Rightarrow> error + pystr" where
  "prefer_key_label_pk U level_syms =
    (case label_loop_pk U level_syms [0, 1, 2, 3] of
       Inl e \<Rightarrow> Inl e
     | Inr (Some ch) \<Rightarrow> Inr ch
     | Inr None \<Rightarrow>
         (case level_syms of
            [] \<Rightarrow> Inl IndexError
          | s0 # _ \<Rightarrow> Inr (or_else (keysym_to_char_pk U s0) s0)))"

text \<open>
  The loop of \<open>main\<close> in keymap_programming_keys.py (lines 244-258); \<open>show_missing\<close> is
  the option \<open>--all\<close> (lines 214-220).
\<close>

definition missing_row :: "pystr \<Rightarrow> pystr list" where
  "missing_row want = [want, DASH, DASH, DASH, str ''No hallado en este layout'']"

definition row_pk :: "unicode \<Rightarrow> pystr \<Rightarrow> occurrence \<Rightarrow> error + pystr list" where
  "row_pk U want e =
    (case e of (code, lvl, ksym, full_syms) \<Rightarrow>
       let combo = lvl_to_combo lvl in
       (case prefer_key_label_pk U full_syms of
          Inl err \<Rightarrow> Inl err
        | Inr key_label \<Rightarrow>
            let example = combo @ str ''Tecla('' @ key_label @ str '')'' in
            Inr [want, key_label, if combo \<noteq> [] then butlast combo else DASH, ksym, example]))"

fun main_rows_pk :: "unicode \<Rightarrow> bool \<Rightarrow> positions \<Rightarrow> pystr list \<Rightarrow> pystr list list \<Rightarrow> error + pystr list list" where
  "main_rows_pk U show_missing positions [] rows = Inr rows"
| "main_rows_pk U show_missing positions (want # rest) rows =
    (if found_list (positions want) = [] then
       (if show_missing then main_rows_pk U show_missing positions rest (rows @ [missing_row want])
        else main_rows_pk U show_missing positions rest rows)
     else
       let found_sorted = sort_by_level (found_list (positions want)) in
       case first_of found_sorted of
         Inl err \<Rightarrow> Inl err
       | Inr e \<Rightarrow>
           (case row_pk U want e of
              Inl err \<Rightarrow> Inl err
            | Inr row \<Rightarrow> main_rows_pk U show_missing positions rest (rows @ [row])))"

section \<open>The live inspector (keyboard_combo_inspector.py)\<close>

text \<open>
  \<open>BASE_KEYSYM_TO_QMK\<close> (lines 32-45) and \<open>EXTRA_CHAR_TO_QMK\<close> (lines 48-51) of the
  inspector; their keys are characters. The comprehensions run over a-z (97-122) and
  A-Z (65-90).
\<close>

definition BASE_KEYSYM_TO_QMK_live :: "(pystr \<times> pystr) list" where
  "BASE_KEYSYM_TO_QMK_live =
    map (\<lambda>c. ([c], str ''KC_'' @ [c - 32])) [97..<123] @
    map (\<lambda>c. ([c], str ''KC_'' @ [c])) [65..<91] @
    map (\<lambda>d. ([48 + d], str ''KC_'' @ [48 + d])) [0..<10] @
    [(str ''-'', str ''KC_MINS''), (str ''='', str ''KC_EQL''),
     (str ''['', str ''KC_LBRC''), (str '']'', str ''KC_RBRC''),
     ([92], str ''KC_BSLS''),
     (str '';'', str ''KC_SCLN''), ([39], str ''KC_QUOT''),
     (str '','', str ''KC_COMM''), (str ''.'', str ''KC_DOT''), (str ''/'', str ''KC_SLSH''),
     ([96], str ''KC_GRV''), (str '' '', str ''KC_SPC'')]"

definition EXTRA_CHAR_TO_QMK :: "(pystr \<times> pystr) list" where
  "EXTRA_CHAR_TO_QMK =
    [([241], str ''KC_SCLN''), ([209], str ''S(KC_SCLN)''),
     ([161], str ''S(KC_1)''), ([191], str ''RALT(KC_SLASH)'')]"

text \<open>
  \<open>qmk_from_char_and_mods\<close> (lines 53-77). \<open>base_kc\<close> is the search for \<open>kc\<close> (lines
  58-66); the function replaces a false \<open>kc\<close> by the marker and wraps it.
\<close>

definition base_kc :: "unicode \<Rightarrow> pystr option \<Rightarrow> pystr option" where
  "base_kc U base_char =
    (case base_char of
       None \<Rightarrow> None
     | Some bc \<Rightarrow>
         if bc = [] then None
         else
           let kc = map_of BASE_KEYSYM_TO_QMK_live bc;
               kc = (if falsy kc then map_of EXTRA_CHAR_TO_QMK bc else kc);
               kc = (if falsy kc \<and> length bc = 1 \<and> isalpha U bc
                     then map_of BASE_KEYSYM_TO_QMK_live (lower U bc) else kc)
           in kc)"

definition qmk_from_char_and_mods :: "unicode \<Rightarrow> pystr option \<Rightarrow> bool \<Rightarrow> bool \<Rightarrow> pystr" where
  "qmk_from_char_and_mods U base_char shift_held ralt =
    (let kc = or_else (base_kc U base_char) (str ''<KC_BASE_DESCONOCIDA>'') in
       if shift_held \<and> ralt then str ''S(RALT('' @ kc @ str ''))''
       else if ralt then str ''RALT('' @ kc @ str '')''
       else if shift_held then str ''S('' @ kc @ str '')''
       else kc)"

text \<open>The dataclass \<open>KeyEventInfo\<close> (lines 80-102) and its two properties.\<close>

record KeyEventInfo =
  source :: pystr
  key :: pystr
  char :: pystr
  ctrl :: bool
  shift :: bool
  alt_l :: bool
  alt_r :: bool
  meta :: bool
  super :: bool
  comment :: pystr

definition altgr :: "KeyEventInfo \<Rightarrow> bool" where
  "altgr info = alt_r info"

definition qmk_suggestion :: "unicode \<Rightarrow> KeyEventInfo \<Rightarrow> pystr" where
  "qmk_suggestion U info =
    (let base_char = (if char info \<noteq> [] then Some (char info) else None)
     in qmk_from_char_and_mods U base_char (shift info) (altgr info))"

text \<open>\<open>str(n)\<close> of a natural number, for the f-strings of the comments.\<close>

function str_of_nat :: "nat \<Rightarrow> pystr" where
  "str_of_nat n = (if n < 10 then [48 + n] else str_of_nat (n div 10) @ [48 + n mod 10])"
  by pat_completeness auto
termination
  by (relation "measure (\<lambda>n. n)") auto

declare str_of_nat.simps [simp del]

text \<open>
  Backend A. \<open>self.tk_mods\<close> (line 135) is a dict with six fixed keys, one field each.
  A Tk key event carries \<open>keysym\<close>, \<open>char\<close> and \<open>keycode\<close>.
\<close>

record tk_mods =
  tk_Shift :: bool
  tk_Control :: bool
  tk_Alt_L :: bool
  tk_Alt_R :: bool
  tk_Meta :: bool
  tk_Super :: bool

definition tk_mods_init :: tk_mods where
  "tk_mods_init = \<lparr>tk_Shift = False, tk_Control = False, tk_Alt_L = False, tk_Alt_R = False,
                   tk_Meta = False, tk_Super = False\<rparr>"

record tk_event =
  keysym :: pystr
  event_char :: pystr
  keycode :: nat

text \<open>
  \<open>on_keypress_tk\<close> (lines 202-242): the new flags and the \<open>KeyEventInfo\<close> that is handed
  to \<open>_update_xkb\<close> for display.
\<close>

definition on_keypress_tk :: "tk_mods \<Rightarrow> tk_event \<Rightarrow> tk_mods \<times> KeyEventInfo" where
  "on_keypress_tk mods event =
    (let ks = keysym event;
         ch = (if event_char event \<noteq> [] then event_char event else []);
         mods =
           (if ks \<in> set [str ''Shift_L'', str ''Shift_R''] then mods\<lparr>tk_Shift := True\<rparr>
            else if ks = str ''Control_L'' \<or> ks = str ''Control_R'' then mods
            else if ks = str ''Alt_L'' then mods\<lparr>tk_Alt_L := True\<rparr>
            else if ks = str ''Alt_R'' \<or> ks = str ''ISO_Level3_Shift'' \<or> ks = str ''Mode_switch''
              then mods\<lparr>tk_Alt_R := True\<rparr>
            else if ks \<in> set [str ''Meta_L'', str ''Meta_R''] then mods\<lparr>tk_Meta := True\<rparr>
            else if ks \<in> set [str ''Super_L'', str ''Super_R''] then mods\<lparr>tk_Super := True\<rparr>
            else mods);
         info = \<lparr>source = str ''XKB'', key = ks, char = ch, ctrl = False,
                 shift = tk_Shift mods, alt_l = tk_Alt_L mods, alt_r = tk_Alt_R mods,
                 meta = tk_Meta mods, super = tk_Super mods,
                 comment = str ''Tk keysym='' @ ks @ str '', keycode='' @ str_of_nat (keycode event)\<rparr>
     in (mods, info))"

text \<open>\<open>on_keyrelease_tk\<close> (lines 244-255).\<close>

definition on_keyrelease_tk :: "tk_mods \<Rightarrow> tk_event \<Rightarrow> tk_mods" where
  "on_keyrelease_tk mods event =
    (let ks = keysym event in
       if ks \<in> set [str ''Shift_L'', str ''Shift_R''] then mods\<lparr>tk_Shift := False\<rparr>
       else if ks = str ''Alt_L'' then mods\<lparr>tk_Alt_L := False\<rparr>
       else if ks = str ''Alt_R'' \<or> ks = str ''ISO_Level3_Shift'' \<or> ks = str ''Mode_switch''
         then mods\<lparr>tk_Alt_R := False\<rparr>
       else if ks \<in> set [str ''Meta_L'', str ''Meta_R''] then mods\<lparr>tk_Meta := False\<rparr>
       else if ks \<in> set [str ''Super_L'', str ''Super_R''] then mods\<lparr>tk_Super := False\<rparr>
       else mods)"

text \<open>
  Backend B. \<open>self.ev_mods\<close> (line 331) has six fixed keys as well. An event of type
  \<open>EV_KEY\<close> is read through \<open>categorize\<close>, which gives its scancode and its key state;
  the table \<open>ecodes.KEY\<close> of the evdev library, from scancodes to names, is a parameter.
\<close>

record ev_mods =
  ev_Shift :: bool
  ev_Ctrl :: bool
  ev_Alt_L :: bool
  ev_Alt_R :: bool
  ev_Meta :: bool
  ev_Super :: bool

definition ev_mods_init :: ev_mods where
  "ev_mods_init = \<lparr>ev_Shift = False, ev_Ctrl = False, ev_Alt_L = False, ev_Alt_R = False,
                   ev_Meta = False, ev_Super = False\<rparr>"

datatype keystate = key_up | key_down | key_hold

datatype input_event = EV_KEY nat keystate | EV_OTHER

text \<open>
  The body of the loop of \<open>_evdev_loop\<close> for one \<open>EV_KEY\<close> event (lines 390-425): the new
  flags and the \<open>KeyEventInfo\<close> put on the queue, if any. \<open>keyname_of\<close> is line 392, the
  name of the scancode or, for a scancode without a name, its decimal digits.
\<close>

definition keyname_of :: "(nat \<Rightarrow> pystr option) \<Rightarrow> nat \<Rightarrow> pystr" where
  "keyname_of KEY scancode = (case KEY scancode of Some name \<Rightarrow> name | None \<Rightarrow> str_of_nat scancode)"

definition evdev_key_event ::
    "(nat \<Rightarrow> pystr option) \<Rightarrow> ev_mods \<Rightarrow> nat \<Rightarrow> keystate \<Rightarrow> ev_mods \<times> KeyEventInfo option" where
  "evdev_key_event KEY mods scancode state =
    (let keyname = keyname_of KEY scancode;
         pressed = (state = key_down);
         released = (state = key_up);
         mods =
           (if keyname \<in> set [str ''KEY_LEFTSHIFT'', str ''KEY_RIGHTSHIFT'']
              then mods\<lparr>ev_Shift := pressed \<or> (\<not> released \<and> ev_Shift mods)\<rparr>
            else if keyname \<in> set [str ''KEY_LEFTALT'']
              then mods\<lparr>ev_Alt_L := pressed \<or> (\<not> released \<and> ev_Alt_L mods)\<rparr>
            else if keyname \<in> set [str ''KEY_RIGHTALT'']
              then mods\<lparr>ev_Alt_R := pressed \<or> (\<not> released \<and> ev_Alt_R mods)\<rparr>
            else if keyname \<in> set [str ''KEY_LEFTCTRL'', str ''KEY_RIGHTCTRL'']
              then mods\<lparr>ev_Ctrl := pressed \<or> (\<not> released \<and> ev_Ctrl mods)\<rparr>
            else if keyname \<in> set [str ''KEY_LEFTMETA'', str ''KEY_RIGHTMETA'']
              then mods\<lparr>ev_Super := pressed \<or> (\<not> released \<and> ev_Super mods)\<rparr>
            else mods);
         ch = []
     in if pressed \<and> \<not> (startswith keyname (str ''KEY_LEFT'') \<or> startswith keyname (str ''KEY_RIGHT''))
        then (mods, Some \<lparr>source = str ''evdev'', key = keyname, char = ch,
                           ctrl = ev_Ctrl mods, shift = ev_Shift mods, alt_l = ev_Alt_L mods,
                           alt_r = ev_Alt_R mods, meta = False, super = ev_Super mods,
                           comment = str ''scancode='' @ str_of_nat scancode\<rparr>)
        else (mods, None))"

text \<open>
  The loop (lines 386-425) over the events read from the device, with the flags and the
  queue as its state; events of another type are passed over.
\<close>

fun evdev_loop ::
    "(nat \<Rightarrow> pystr option) \<Rightarrow> input_event list \<Rightarrow> ev_mods \<Rightarrow> KeyEventInfo list \<Rightarrow>
     ev_mods \<times> KeyEventInfo list" where
  "evdev_loop KEY [] mods queue = (mods, queue)"
| "evdev_loop KEY (EV_OTHER # events) mods queue = evdev_loop KEY events mods queue"
| "evdev_loop KEY (EV_KEY scancode state # events) mods queue =
    (case evdev_key_event KEY mods scancode state of
       (mods', None) \<Rightarrow> evdev_loop KEY events mods' queue
     | (mods', Some info) \<Rightarrow> evdev_loop KEY events mods' (queue @ [info]))"

text \<open>
  The entries of \<open>ecodes.KEY\<close> (linux/input-event-codes.h) that the examples below use.
\<close>

definition KEY_sample :: "nat \<Rightarrow> pystr option" where
  "KEY_sample = map_of
    [(26, str ''KEY_LEFTBRACE''), (27, str ''KEY_RIGHTBRACE''), (29, str ''KEY_LEFTCTRL''),
     (30, str ''KEY_A''), (42, str ''KEY_LEFTSHIFT''), (54, str ''KEY_RIGHTSHIFT''),
     (56, str ''KEY_LEFTALT''), (97, str ''KEY_RIGHTCTRL''), (100, str ''KEY_RIGHTALT''),
     (105, str ''KEY_LEFT''), (106, str ''KEY_RIGHT''),
     (125, str ''KEY_LEFTMETA''), (126, str ''KEY_RIGHTMETA'')]"

section \<open>Example inputs\<close>

text \<open>
  A raw mapping with a line of two tokens, one of five and one of four, and a key without
  symbols, which the regular expression does not match.
\<close>

definition pke_example :: pystr where
  "pke_example =
    str ''keycode  38 = a A'' @ [10] @
    str ''keycode  24 = q Q at Greek_OMEGA at'' @ [10] @
    str ''keycode   8 ='' @ [10] @
    str ''keycode  10 = 1 exclam bar exclamdown'' @ [10]"

definition found_example :: "occurrence list" where
  "found_example =
    [(24, 2, str ''a'', [str ''q'', str ''Q'', str ''a'', NoSymbol]),
     (38, 0, str ''a'', [str ''a'', str ''A'', NoSymbol, NoSymbol]),
     (40, 0, str ''a'', [str ''a'', str ''d'', NoSymbol, NoSymbol])]"

definition positions_example :: positions where
  "positions_example = Map.empty([97] \<mapsto> found_example)"

text \<open>A press of the letter a and a press of the level-3 shift key, as Tk reports them.\<close>

definition press_a :: tk_event where
  "press_a = \<lparr>keysym = str ''a'', event_char = str ''a'', keycode = 38\<rparr>"

definition press_level3 :: tk_event where
  "press_level3 = \<lparr>keysym = str ''ISO_Level3_Shift'', event_char = [], keycode = 108\<rparr>"

section \<open>Notions of the claims\<close>

text \<open>
  The key names at which the two handlers change a flag or, for the Control keys of
  backend A, pass: the conditions of the chains of \<open>on_keypress_tk\<close> (lines 208-219) and of
  \<open>_evdev_loop\<close> (lines 397-406).
\<close>

definition tk_modifier_keysyms :: "pystr list" where
  "tk_modifier_keysyms =
    [str ''Shift_L'', str ''Shift_R'', str ''Control_L'', str ''Control_R'', str ''Alt_L'',
     str ''Alt_R'', str ''ISO_Level3_Shift'', str ''Mode_switch'',
     str ''Meta_L'', str ''Meta_R'', str ''Super_L'', str ''Super_R'']"

definition ev_modifier_keynames :: "pystr list" where
  "ev_modifier_keynames =
    [str ''KEY_LEFTSHIFT'', str ''KEY_RIGHTSHIFT'', str ''KEY_LEFTALT'', str ''KEY_RIGHTALT'',
     str ''KEY_LEFTCTRL'', str ''KEY_RIGHTCTRL'', str ''KEY_LEFTMETA'', str ''KEY_RIGHTMETA'']"

text \<open>
  How a reader of the output takes the symbol back out of a keycode expression: remove
  the wrapper \<open>S(RALT(...))\<close>, \<open>S(...)\<close> or \<open>RALT(...)\<close> if there is one, then the opening
  \<open><KC_BASE_DESCONOCIDA:keysym=\<close> (28 characters) and the closing \<open>>\<close> (62). The repository
  has no such function; it states what "the symbol can be extracted" means.
\<close>

definition marker_keysym :: "pystr \<Rightarrow> pystr option" where
  "marker_keysym q =
    (let body =
       (if startswith q (str ''S(RALT('') then take (length q - 9) (drop 7 q)
        else if startswith q (str ''S('') then take (length q - 3) (drop 2 q)
        else if startswith q (str ''RALT('') then take (length q - 6) (drop 5 q)
        else q)
     in if startswith body (str ''<KC_BASE_DESCONOCIDA:keysym='') \<and> 28 < length body \<and> last body = 62
        then Some (butlast (drop 28 body))
        else None)"

section \<open>Predicates of the proofs\<close>

text \<open>
  \<open>all_occurrences P pos\<close>: every occurrence held by the index satisfies \<open>P\<close>.
  \<open>occ_of_keymap km e\<close>: the occurrence \<open>e\<close> names a row of the keymap, a level of that row
  and the symbol at that level.
\<close>

definition all_occurrences :: "(occurrence \<Rightarrow> bool) \<Rightarrow> positions \<Rightarrow> bool" where
  "all_occurrences P pos \<longleftrightarrow> (\<forall>c es. pos c = Some es \<longrightarrow> (\<forall>e\<in>set es. P e))"

definition occ_of_keymap :: "keymap \<Rightarrow> occurrence \<Rightarrow> bool" where
  "occ_of_keymap km e \<longleftrightarrow>
    (case e of (code, lvl, ksym, syms) \<Rightarrow>
       (code, syms) \<in> set km \<and> lvl < length syms \<and> syms ! lvl = ksym)"

section \<open>Basic facts\<close>

lemma str_simps [simp]:
  "str [] = []"
  "str (c # cs) = of_char c # str cs"
  by (simp_all add: str_def)

lemma map_of_KEYSYM_TO_CHAR_agree:
  "\<not> startswith ksym DEAD_PREFIX \<Longrightarrow>
     map_of KEYSYM_TO_CHAR_qmk ksym = map_of KEYSYM_TO_CHAR_pk ksym"
  unfolding KEYSYM_TO_CHAR_qmk_def KEYSYM_TO_CHAR_pk_def startswith_def DEAD_PREFIX_def
  by auto

lemma keysym_to_char_pk_eq: "keysym_to_char_pk U ksym = keysym_to_char_qmk ksym"
  by (simp add: keysym_to_char_qmk_def keysym_to_char_pk_def map_of_KEYSYM_TO_CHAR_agree
      split: option.splits)

section \<open>Reading the raw mapping: every row has four levels\<close>

lemma pad4_eq: "pad4 syms = syms @ replicate (4 - length syms) NoSymbol"
proof (induction syms rule: pad4.induct)
  case (1 syms)
  show ?case
  proof (cases "length syms < 4")
    case True
    then have "pad4 syms = pad4 (syms @ [NoSymbol])"
      by (subst pad4.simps) simp
    also have "\<dots> = (syms @ [NoSymbol]) @ replicate (4 - length (syms @ [NoSymbol])) NoSymbol"
      using 1 True by simp
    also have "\<dots> = syms @ replicate (4 - length syms) NoSymbol"
    proof -
      from True have "4 - length syms = Suc (4 - length (syms @ [NoSymbol]))" by simp
      then show ?thesis by simp
    qed
    finally show ?thesis .
  next
    case False
    then show ?thesis by (subst pad4.simps) simp
  qed
qed

lemma take4_pad4: "take 4 (pad4 syms) = take 4 syms @ replicate (4 - length syms) NoSymbol"
  by (simp add: pad4_eq)

lemma split_from_nonempty: "t \<in> set (split_from U cur s) \<Longrightarrow> t \<noteq> []"
  by (induction U cur s rule: split_from.induct) (auto split: if_splits)

lemma filter_split: "filter (\<lambda>t. t \<noteq> []) (split U s) = split U s"
  using split_from_nonempty [of _ U "[]" s] by (auto simp: split_def filter_id_conv)

lemma dict_set_cases:
  "(k', v') \<in> set (dict_set d k v) \<Longrightarrow> (k' = k \<and> v' = v) \<or> (k', v') \<in> set d"
  by (induction d) (auto split: if_splits)

lemma parse_xmodmap_pke_lines_rows:
  assumes "(code, row) \<in> set (parse_xmodmap_pke_lines U ls km)"
  shows "(code, row) \<in> set km \<or>
    (\<exists>line g1 g2. line \<in> set ls \<and> pke_match U (strip U line) = Some (g1, g2) \<and>
       code = int_of_digits U g1 \<and>
       row = take 4 (split U g2) @ replicate (4 - length (split U g2)) NoSymbol)"
  using assms
proof (induction ls arbitrary: km)
  case Nil
  then show ?case by simp
next
  case (Cons line ls)
  show ?case
  proof (cases "pke_match U (strip U line)")
    case None
    with Cons.prems have "(code, row) \<in> set (parse_xmodmap_pke_lines U ls km)" by simp
    from Cons.IH [OF this] show ?thesis by auto
  next
    case (Some g)
    obtain g1 g2 where g: "g = (g1, g2)" by (cases g)
    let ?km = "dict_set km (int_of_digits U g1) (take 4 (pad4 (split U g2)))"
    from Cons.prems Some g have "(code, row) \<in> set (parse_xmodmap_pke_lines U ls ?km)"
      by (simp add: filter_split)
    from Cons.IH [OF this] show ?thesis
    proof
      assume "(code, row) \<in> set ?km"
      from dict_set_cases [OF this] show ?thesis
      proof
        assume "code = int_of_digits U g1 \<and> row = take 4 (pad4 (split U g2))"
        with Some g have "pke_match U (strip U line) = Some (g1, g2) \<and>
            code = int_of_digits U g1 \<and>
            row = take 4 (split U g2) @ replicate (4 - length (split U g2)) NoSymbol"
          by (simp add: take4_pad4)
        then show ?thesis by auto
      qed simp
    qed auto
  qed
qed

lemma parse_pke_lines_eq: "parse_pke_lines U ls km = parse_xmodmap_pke_lines U ls km"
  by (induction ls arbitrary: km) (auto split: option.splits)

lemma parse_pke_eq: "parse_pke U pke = parse_xmodmap_pke U pke"
  by (simp add: parse_pke_def parse_xmodmap_pke_def parse_pke_lines_eq)

lemma parse_xmodmap_pke_row_length:
  "(code, row) \<in> set (parse_xmodmap_pke U pke) \<Longrightarrow> length row = 4"
  using parse_xmodmap_pke_lines_rows [of code row U "splitlines pke" "[]"]
  by (auto simp: parse_xmodmap_pke_def)

lemma parse_pke_example:
  "parse_xmodmap_pke ascii pke_example =
    [(38, [str ''a'', str ''A'', NoSymbol, NoSymbol]),
     (24, [str ''q'', str ''Q'', str ''at'', str ''Greek_OMEGA'']),
     (10, [str ''1'', str ''exclam'', str ''bar'', str ''exclamdown''])]"
  by (simp add: pke_example_def parse_xmodmap_pke_def splitlines_def linebreaks_def strip_def
      pke_match_def startswith_def ascii_def int_of_digits_def split_def take4_pad4 Let_def
      numeral_2_eq_2)

text \<open>
  Claim C6. Whatever the text of the raw mapping, every row that \<open>parse_xmodmap_pke\<close> or
  \<open>parse_pke\<close> stores has exactly four entries: it comes from a line that the pattern
  matches, and it is the first four tokens of that line, followed by \<open>NoSymbol\<close> in each
  slot that the line leaves empty.
\<close>

theorem rows_have_four_levels:
  assumes "(code, row) \<in> set (parse_xmodmap_pke U pke) \<or> (code, row) \<in> set (parse_pke U pke)"
  shows "length row = 4 \<and>
    (\<exists>line g1 g2. line \<in> set (splitlines pke) \<and> pke_match U (strip U line) = Some (g1, g2) \<and>
       code = int_of_digits U g1 \<and>
       row = take 4 (split U g2) @ replicate (4 - length (split U g2)) NoSymbol)"
proof -
  from assms have "(code, row) \<in> set (parse_xmodmap_pke_lines U (splitlines pke) [])"
    by (auto simp: parse_pke_eq parse_xmodmap_pke_def)
  from parse_xmodmap_pke_lines_rows [OF this]
  obtain line g1 g2 where g: "line \<in> set (splitlines pke)"
      "pke_match U (strip U line) = Some (g1, g2)" "code = int_of_digits U g1"
      "row = take 4 (split U g2) @ replicate (4 - length (split U g2)) NoSymbol"
    by auto
  from g(4) have "length row = 4" by auto
  with g show ?thesis by blast
qed

theorem rows_have_four_levels_witness:
  "(38, [str ''a'', str ''A'', NoSymbol, NoSymbol]) \<in> set (parse_xmodmap_pke ascii pke_example) \<and>
   length [str ''a'', str ''A'', NoSymbol, NoSymbol] = 4 \<and>
   (24, [str ''q'', str ''Q'', str ''at'', str ''Greek_OMEGA'']) \<in> set (parse_pke ascii pke_example) \<and>
   length [str ''q'', str ''Q'', str ''at'', str ''Greek_OMEGA''] = 4"
proof -
  have a: "(38, [str ''a'', str ''A'', NoSymbol, NoSymbol]) \<in> set (parse_xmodmap_pke ascii pke_example)"
    by (simp add: parse_pke_example)
  have b: "(24, [str ''q'', str ''Q'', str ''at'', str ''Greek_OMEGA'']) \<in> set (parse_pke ascii pke_example)"
    by (simp add: parse_pke_eq parse_pke_example)
  from rows_have_four_levels [OF disjI1 [OF a]] rows_have_four_levels [OF disjI2 [OF b]] a b
  show ?thesis by blast
qed

section \<open>The two symbol resolvers agree\<close>

text \<open>
  Claim C10. \<open>keysym_to_char\<close> of kbmap_qmk_helper.py and \<open>keysym_to_char\<close> of
  keymap_programming_keys.py return the same result on every symbol: the three entries
  that only the first table has are symbols with the prefix \<open>dead_\<close>, which both
  functions return unchanged before they read their table.
\<close>

theorem keysym_to_char_agree: "keysym_to_char_qmk ksym = keysym_to_char_pk U ksym"
  by (simp add: keysym_to_char_pk_eq)

section \<open>Facts about the reverse index\<close>

lemma ascii_sel:
  "alpha ascii c \<longleftrightarrow> (65 \<le> c \<and> c \<le> 90) \<or> (97 \<le> c \<and> c \<le> 122)"
  "digit ascii c \<longleftrightarrow> 48 \<le> c \<and> c \<le> 57"
  "alnum ascii c \<longleftrightarrow> (48 \<le> c \<and> c \<le> 57) \<or> (65 \<le> c \<and> c \<le> 90) \<or> (97 \<le> c \<and> c \<le> 122)"
  "space ascii c \<longleftrightarrow> (9 \<le> c \<and> c \<le> 13) \<or> (28 \<le> c \<and> c \<le> 32)"
  "decimal ascii c = (if 48 \<le> c \<and> c \<le> 57 then Some (c - 48) else None)"
  "to_upper ascii c = (if 97 \<le> c \<and> c \<le> 122 then [c - 32] else [c])"
  "to_lower ascii c = (if 65 \<le> c \<and> c \<le> 90 then [c + 32] else [c])"
  by (simp_all add: ascii_def)

lemma scan_row_pk_eq: "scan_row_pk U code syms rest pos = scan_row_qmk code syms rest pos"
  by (induction code syms rest pos rule: scan_row_qmk.induct)
     (auto simp: keysym_to_char_pk_eq split: option.splits)

lemma find_char_positions_from_eq:
  "find_char_positions_from U km pos = build_positions_from km pos"
  by (induction km pos rule: build_positions_from.induct) (auto simp: scan_row_pk_eq)

lemma find_char_positions_eq: "find_char_positions U km = build_positions km"
  by (simp add: find_char_positions_def build_positions_def find_char_positions_from_eq)

lemma all_occurrences_append:
  "all_occurrences P pos \<Longrightarrow> P e \<Longrightarrow> all_occurrences P (append_occurrence pos ch e)"
  unfolding all_occurrences_def append_occurrence_def
  by (cases "pos ch") (auto split: if_splits)

lemma all_occurrences_scan_row:
  "all_occurrences P pos \<Longrightarrow> (\<forall>(lvl, ksym)\<in>set rest. P (code, lvl, ksym, syms)) \<Longrightarrow>
     all_occurrences P (scan_row_qmk code syms rest pos)"
  by (induction code syms rest pos rule: scan_row_qmk.induct)
     (auto simp: all_occurrences_append split: option.splits)

lemma all_occurrences_build_from:
  "all_occurrences (occ_of_keymap KM) pos \<Longrightarrow> set km \<subseteq> set KM \<Longrightarrow>
     all_occurrences (occ_of_keymap KM) (build_positions_from km pos)"
proof (induction km pos rule: build_positions_from.induct)
  case (1 pos)
  then show ?case by simp
next
  case (2 code syms km pos)
  have "\<forall>(lvl, ksym)\<in>set (enumerate 0 syms). occ_of_keymap KM (code, lvl, ksym, syms)"
    using 2(3) by (auto simp: occ_of_keymap_def in_set_enumerate_eq)
  with 2(2) have "all_occurrences (occ_of_keymap KM) (scan_row_qmk code syms (enumerate 0 syms) pos)"
    by (rule all_occurrences_scan_row)
  with 2 show ?case by simp
qed

lemma build_positions_occurrence:
  assumes "build_positions km c = Some found" "(code, lvl, ksym, syms) \<in> set found"
  shows "(code, syms) \<in> set km \<and> lvl < length syms \<and> syms ! lvl = ksym"
proof -
  have "all_occurrences (occ_of_keymap km) (build_positions km)"
    unfolding build_positions_def
    by (rule all_occurrences_build_from) (simp_all add: all_occurrences_def)
  with assms show ?thesis by (fastforce simp: all_occurrences_def occ_of_keymap_def)
qed

text \<open>
  The index of \<open>pke_example\<close> at the characters a (97), z (122) and the at sign (64).
\<close>

lemma index_example:
  "build_positions (parse_xmodmap_pke ascii pke_example) [97] =
     Some [(38, 0, str ''a'', [str ''a'', str ''A'', NoSymbol, NoSymbol])]"
  "build_positions (parse_xmodmap_pke ascii pke_example) [122] = None"
  "build_positions (parse_xmodmap_pke ascii pke_example) [64] =
     Some [(24, 2, str ''at'', [str ''q'', str ''Q'', str ''at'', str ''Greek_OMEGA''])]"
  by (simp_all add: parse_pke_example build_positions_def enumerate_eq_zip upt_conv_Cons
      NoSymbol_def keysym_to_char_qmk_def startswith_def DEAD_PREFIX_def KEYSYM_TO_CHAR_qmk_def
      append_occurrence_def)

section \<open>Dead symbols in the reverse index\<close>

lemma scan_row_qmk_no_dead:
  assumes "all_occurrences (\<lambda>e. \<not> startswith (fst (snd (snd e))) DEAD_PREFIX) pos"
  shows "all_occurrences (\<lambda>e. \<not> startswith (fst (snd (snd e))) DEAD_PREFIX)
           (scan_row_qmk code syms rest pos)"
  using assms
proof (induction code syms rest pos rule: scan_row_qmk.induct)
  case (1 code syms pos)
  then show ?case by simp
next
  case (2 code syms lvl ksym rest pos)
  show ?case
  proof (cases "startswith ksym DEAD_PREFIX")
    case True
    then have "keysym_to_char_qmk ksym = Some ksym" by (simp add: keysym_to_char_qmk_def)
    with True 2 show ?thesis by simp
  next
    case False
    with 2 show ?thesis
      by (auto simp: all_occurrences_append split: option.splits)
  qed
qed

lemma build_positions_from_no_dead:
  "all_occurrences (\<lambda>e. \<not> startswith (fst (snd (snd e))) DEAD_PREFIX) pos \<Longrightarrow>
     all_occurrences (\<lambda>e. \<not> startswith (fst (snd (snd e))) DEAD_PREFIX)
       (build_positions_from km pos)"
  by (induction km pos rule: build_positions_from.induct) (auto simp: scan_row_qmk_no_dead)

text \<open>
  No keymap gives the index an occurrence of a dead symbol: the override entries of
  \<open>KEYSYM_TO_CHAR\<close> are never used, whatever the input.
\<close>

lemma dead_symbols_never_indexed:
  assumes "build_positions km c = Some found" "(code, lvl, ksym, syms) \<in> set found"
  shows "\<not> startswith ksym DEAD_PREFIX"
proof -
  have "all_occurrences (\<lambda>e. \<not> startswith (fst (snd (snd e))) DEAD_PREFIX) (build_positions km)"
    unfolding build_positions_def
    by (rule build_positions_from_no_dead) (simp add: all_occurrences_def)
  with assms show ?thesis by (fastforce simp: all_occurrences_def)
qed

text \<open>
  Claim C1. The claim does not hold of the code: \<open>keysym_to_char\<close> tests the prefix
  \<open>dead_\<close> before it reads \<open>KEYSYM_TO_CHAR\<close>, so the entries for \<open>dead_grave\<close>,
  \<open>dead_acute\<close> and \<open>dead_tilde\<close> are never read and \<open>build_positions\<close> skips the three
  symbols like every other dead symbol. On a keymap whose keys carry the three symbols
  the index has no occurrence for the backtick (96), the acute accent (180) or the
  tilde.
\<close>

theorem dead_overrides_not_indexed:
  "build_positions
     [(34, [str ''dead_acute'', str ''dead_diaeresis'', NoSymbol, NoSymbol]),
      (35, [str ''dead_grave'', str ''dead_tilde'', NoSymbol, NoSymbol])] =
   Map.empty \<and>
   keysym_to_char_qmk (str ''dead_grave'') = Some (str ''dead_grave'') \<and>
   keysym_to_char_qmk (str ''dead_acute'') = Some (str ''dead_acute'') \<and>
   keysym_to_char_qmk (str ''dead_tilde'') = Some (str ''dead_tilde'')"
  by (simp add: build_positions_def enumerate_eq_zip upt_conv_Cons NoSymbol_def
      keysym_to_char_qmk_def startswith_def DEAD_PREFIX_def)

section \<open>The occurrence that resolution chooses\<close>

lemma sort_key_first:
  fixes f :: "'a \<Rightarrow> nat"
  assumes "xs \<noteq> []"
  shows "\<exists>e ys pre post. sort_key f xs = e # ys \<and> xs = pre @ e # post \<and>
           (\<forall>t\<in>set pre. f e < f t) \<and> (\<forall>t\<in>set post. f e \<le> f t)"
  using assms
proof (induction xs)
  case Nil
  then show ?case by simp
next
  case (Cons x xs)
  show ?case
  proof (cases "xs = []")
    case True
    then have "sort_key f (x # xs) = x # [] \<and> x # xs = [] @ x # []" by simp
    then show ?thesis by fastforce
  next
    case False
    from Cons.IH [OF False] obtain e ys pre post where
      e: "sort_key f xs = e # ys" "xs = pre @ e # post"
         "\<forall>t\<in>set pre. f e < f t" "\<forall>t\<in>set post. f e \<le> f t"
      by blast
    show ?thesis
    proof (cases "f x \<le> f e")
      case True
      with e have "\<forall>t\<in>set xs. f x \<le> f t" by fastforce
      moreover from True e(1) have "sort_key f (x # xs) = x # e # ys" by simp
      moreover have "x # xs = [] @ x # xs" by simp
      ultimately show ?thesis by (metis empty_iff list.set(1))
    next
      case False
      with e(1) have "sort_key f (x # xs) = e # insort_key f x ys" by simp
      moreover from e(2) have "x # xs = (x # pre) @ e # post" by simp
      moreover from False e(3) have "\<forall>t\<in>set (x # pre). f e < f t" by simp
      ultimately show ?thesis using e(4) by blast
    qed
  qed
qed

lemma first_of_sort_by_level:
  assumes "found \<noteq> []"
  shows "\<exists>e. first_of (sort_by_level found) = Inr e \<and> e \<in> set found"
proof -
  from sort_key_first [OF assms, of occ_level] obtain e ys pre post where
    "sort_key occ_level found = e # ys" "found = pre @ e # post" by blast
  then show ?thesis by (auto simp: first_of_def sort_by_level_def)
qed

text \<open>
  Claim C4. When the index holds a non-empty list \<open>found\<close> for a character, both
  programs build the row of the character from one occurrence \<open>e\<close> of the list: every
  occurrence discovered before \<open>e\<close> has a strictly higher level and every occurrence
  discovered after it has a level at least as high. So \<open>e\<close> has the minimum level, and
  among the occurrences of that level it is the one discovered first.
\<close>

theorem lowest_level_first_found:
  assumes "positions c = Some found" and "found \<noteq> []"
  shows "\<exists>e pre post. found = pre @ e # post \<and>
    (\<forall>t\<in>set pre. occ_level e < occ_level t) \<and> (\<forall>t\<in>set post. occ_level e \<le> occ_level t) \<and>
    first_of (sort_by_level found) = Inr e \<and>
    main_rows_qmk U (c # rest) positions rows =
      (case row_qmk U c e of
         Inl err \<Rightarrow> Inl err
       | Inr row \<Rightarrow> main_rows_qmk U rest (positions(c \<mapsto> sort_by_level found)) (rows @ [row])) \<and>
    main_rows_pk U show_missing positions (c # rest) rows =
      (case row_pk U c e of
         Inl err \<Rightarrow> Inl err
       | Inr row \<Rightarrow> main_rows_pk U show_missing positions rest (rows @ [row]))"
proof -
  from sort_key_first [OF assms(2), of occ_level] obtain e ys pre post where
    e: "sort_key occ_level found = e # ys" "found = pre @ e # post"
    "\<forall>t\<in>set pre. occ_level e < occ_level t" "\<forall>t\<in>set post. occ_level e \<le> occ_level t"
    by blast
  from e(1) have f: "first_of (sort_by_level found) = Inr e"
    by (simp add: first_of_def sort_by_level_def)
  with assms have "main_rows_qmk U (c # rest) positions rows =
      (case row_qmk U c e of
         Inl err \<Rightarrow> Inl err
       | Inr row \<Rightarrow> main_rows_qmk U rest (positions(c \<mapsto> sort_by_level found)) (rows @ [row]))"
    by simp
  moreover from f assms have "main_rows_pk U show_missing positions (c # rest) rows =
      (case row_pk U c e of
         Inl err \<Rightarrow> Inl err
       | Inr row \<Rightarrow> main_rows_pk U show_missing positions rest (rows @ [row]))"
    by simp
  ultimately show ?thesis using e f by blast
qed

theorem lowest_level_first_found_witness:
  "positions_example [97] = Some found_example \<and> found_example \<noteq> [] \<and>
   first_of (sort_by_level found_example) =
     Inr (38, 0, str ''a'', [str ''a'', str ''A'', NoSymbol, NoSymbol]) \<and>
   main_rows_qmk ascii [[97]] positions_example [] =
     Inr [[str ''a'', DASH, str ''a'', str ''KC_A'', str ''a'']] \<and>
   main_rows_pk ascii False positions_example [[97]] [] =
     Inr [[str ''a'', str ''a'', DASH, str ''a'', str ''Tecla(a)'']] \<and>
   (\<exists>e pre post. found_example = pre @ e # post \<and>
      (\<forall>t\<in>set pre. occ_level e < occ_level t) \<and> (\<forall>t\<in>set post. occ_level e \<le> occ_level t) \<and>
      first_of (sort_by_level found_example) = Inr e)"
proof -
  have p: "positions_example [97] = Some found_example" by (simp add: positions_example_def)
  have ne: "found_example \<noteq> []" by (simp add: found_example_def)
  have f: "first_of (sort_by_level found_example) =
      Inr (38, 0, str ''a'', [str ''a'', str ''A'', NoSymbol, NoSymbol])"
    by (simp add: found_example_def first_of_def sort_by_level_def occ_level_def)
  have q: "main_rows_qmk ascii [[97]] positions_example [] =
      Inr [[str ''a'', DASH, str ''a'', str ''KC_A'', str ''a'']]"
    by (simp add: p ne f row_qmk_def qmk_combo_for_def level_to_combo_def qmk_base_for_def
        base_keysym_of_def NoSymbol_def qmk_base_direct_def isalpha_def ascii_sel upper_def
        prefer_key_label_qmk_def keysym_to_char_qmk_def KEYSYM_TO_CHAR_qmk_def startswith_def
        DEAD_PREFIX_def)
  have k: "main_rows_pk ascii False positions_example [[97]] [] =
      Inr [[str ''a'', str ''a'', DASH, str ''a'', str ''Tecla(a)'']]"
    by (simp add: p ne f row_pk_def lvl_to_combo_def prefer_key_label_pk_def keysym_to_char_pk_def
        KEYSYM_TO_CHAR_pk_def startswith_def DEAD_PREFIX_def isalnum_def ascii_sel NoSymbol_def)
  from lowest_level_first_found [of positions_example "[97]" found_example, OF p ne] p ne f q k
  show ?thesis by blast
qed

section \<open>Wrapping the base keycode by level\<close>

lemma label_loop_qmk_total:
  "\<forall>i\<in>set is. i < length level_syms \<Longrightarrow> \<exists>r. label_loop_qmk level_syms is = Inr r"
  by (induction level_syms "is" rule: label_loop_qmk.induct) (auto split: option.splits)

lemma prefer_key_label_qmk_total:
  assumes "length level_syms = 4"
  shows "\<exists>label. prefer_key_label_qmk level_syms = Inr label"
proof -
  from assms have "\<forall>i\<in>set [0, 1, 2, 3]. i < length level_syms" by simp
  from label_loop_qmk_total [OF this]
  obtain r where "label_loop_qmk level_syms [0, 1, 2, 3] = Inr r" ..
  moreover from assms obtain s0 rest where "level_syms = s0 # rest" by (cases level_syms) auto
  ultimately show ?thesis by (auto simp: prefer_key_label_qmk_def split: option.splits)
qed

lemma qmk_base_for_total:
  assumes "length level_syms = 4"
  shows "\<exists>X. qmk_base_for U ksym level_syms = Inr X"
proof -
  from assms obtain s0 rest where l: "level_syms = s0 # rest" by (cases level_syms) auto
  from prefer_key_label_qmk_total [OF assms]
  obtain label where "prefer_key_label_qmk level_syms = Inr label" ..
  then have "\<exists>X. qmk_base_last_chance U b level_syms = Inr X" for b
    by (simp add: qmk_base_last_chance_def)
  with l show ?thesis by (auto simp: qmk_base_for_def Let_def split: option.splits)
qed

lemma qmk_combo_for_shape:
  assumes "qmk_base_for U ksym level_syms = Inr X" "lvl < 4"
  shows "qmk_combo_for U (code, lvl, ksym, level_syms) =
    Inr (level_to_combo lvl, ksym,
         [X, str ''S('' @ X @ str '')'', str ''RALT('' @ X @ str '')'',
          str ''S(RALT('' @ X @ str ''))''] ! lvl)"
proof -
  from assms(2) consider "lvl = 0" | "lvl = 1" | "lvl = 2" | "lvl = 3" by linarith
  then show ?thesis using assms(1) by cases (simp_all add: qmk_combo_for_def)
qed

text \<open>
  Claim C5. Every occurrence that the index of a parsed raw mapping holds has a level
  below 4 and a base keycode hypothesis \<open>X\<close>, and \<open>qmk_combo_for\<close> returns for it the
  expression \<open>X\<close> at level 0, \<open>S(X)\<close> at level 1, \<open>RALT(X)\<close> at level 2 and \<open>S(RALT(X))\<close> at
  level 3, with no other shape.
\<close>

theorem keycode_wrapping_by_level:
  assumes "build_positions (parse_xmodmap_pke U pke) c = Some found"
    and "(code, lvl, ksym, level_syms) \<in> set found"
  shows "\<exists>X. qmk_base_for U ksym level_syms = Inr X \<and> lvl < 4 \<and>
    qmk_combo_for U (code, lvl, ksym, level_syms) =
      Inr (level_to_combo lvl, ksym,
           [X, str ''S('' @ X @ str '')'', str ''RALT('' @ X @ str '')'',
            str ''S(RALT('' @ X @ str ''))''] ! lvl)"
proof -
  from build_positions_occurrence [OF assms]
  have row: "(code, level_syms) \<in> set (parse_xmodmap_pke U pke)" and lvl: "lvl < length level_syms"
    by simp_all
  from parse_xmodmap_pke_row_length [OF row] have len: "length level_syms = 4" .
  from qmk_base_for_total [OF len] obtain X where X: "qmk_base_for U ksym level_syms = Inr X" ..
  from lvl len have "lvl < 4" by simp
  with X qmk_combo_for_shape [OF X this] show ?thesis by blast
qed

theorem keycode_wrapping_by_level_witness:
  "build_positions (parse_xmodmap_pke ascii pke_example) [64] =
     Some [(24, 2, str ''at'', [str ''q'', str ''Q'', str ''at'', str ''Greek_OMEGA''])] \<and>
   qmk_base_for ascii (str ''at'') [str ''q'', str ''Q'', str ''at'', str ''Greek_OMEGA''] =
     Inr (str ''KC_Q'') \<and>
   qmk_combo_for ascii (24, 2, str ''at'', [str ''q'', str ''Q'', str ''at'', str ''Greek_OMEGA'']) =
     Inr (str ''AltGr+'', str ''at'', str ''RALT(KC_Q)'')"
proof -
  let ?row = "[str ''q'', str ''Q'', str ''at'', str ''Greek_OMEGA'']"
  have i: "build_positions (parse_xmodmap_pke ascii pke_example) [64] =
      Some [(24, 2, str ''at'', ?row)]"
    by (rule index_example)
  have m: "(24, 2, str ''at'', ?row) \<in> set [(24, 2, str ''at'', ?row)]" by simp
  have b: "qmk_base_for ascii (str ''at'') ?row = Inr (str ''KC_Q'')"
    by (simp add: qmk_base_for_def base_keysym_of_def NoSymbol_def qmk_base_direct_def
        isalpha_def ascii_sel upper_def)
  from keycode_wrapping_by_level [OF i m] obtain X where
    X: "qmk_base_for ascii (str ''at'') ?row = Inr X"
       "qmk_combo_for ascii (24, 2, str ''at'', ?row) =
          Inr (level_to_combo 2, str ''at'',
               [X, str ''S('' @ X @ str '')'', str ''RALT('' @ X @ str '')'',
                str ''S(RALT('' @ X @ str ''))''] ! 2)"
    by blast
  from X(1) b have "X = str ''KC_Q''" by simp
  with X(2) have "qmk_combo_for ascii (24, 2, str ''at'', ?row) =
      Inr (str ''AltGr+'', str ''at'', str ''RALT(KC_Q)'')"
    by (simp add: level_to_combo_def)
  with i b show ?thesis by simp
qed

section \<open>Characters that the index does not hold\<close>

lemma label_loop_pk_total:
  "\<forall>i\<in>set is. i < length level_syms \<Longrightarrow> \<exists>r. label_loop_pk U level_syms is = Inr r"
  by (induction U level_syms "is" rule: label_loop_pk.induct) (auto split: option.splits)

lemma prefer_key_label_pk_total:
  assumes "length level_syms = 4"
  shows "\<exists>label. prefer_key_label_pk U level_syms = Inr label"
proof -
  from assms have "\<forall>i\<in>set [0, 1, 2, 3]. i < length level_syms" by simp
  from label_loop_pk_total [OF this]
  obtain r where "label_loop_pk U level_syms [0, 1, 2, 3] = Inr r" ..
  moreover from assms obtain s0 rest where "level_syms = s0 # rest" by (cases level_syms) auto
  ultimately show ?thesis by (auto simp: prefer_key_label_pk_def split: option.splits)
qed

lemma row_pk_total:
  assumes "length (snd (snd (snd e))) = 4"
  shows "\<exists>row. row_pk U want e = Inr row"
proof -
  obtain code lvl ksym full_syms where e: "e = (code, lvl, ksym, full_syms)" by (cases e)
  with assms prefer_key_label_pk_total [of full_syms U] show ?thesis
    by (auto simp: row_pk_def Let_def)
qed

lemma row_pk_first_field: "row_pk U want e = Inr row \<Longrightarrow> row \<noteq> [] \<and> hd row = want"
  by (auto simp: row_pk_def Let_def split: prod.splits sum.splits)

lemma main_rows_pk_total:
  assumes "all_occurrences (\<lambda>e. length (snd (snd (snd e))) = 4) positions"
  shows "\<exists>out. main_rows_pk U show_missing positions wanted rows = Inr out"
proof (induction wanted arbitrary: rows)
  case Nil
  then show ?case by simp
next
  case (Cons want rest)
  show ?case
  proof (cases "found_list (positions want) = []")
    case True
    with Cons.IH [of rows] Cons.IH [of "rows @ [missing_row want]"] show ?thesis
      by (cases show_missing) simp_all
  next
    case False
    then obtain found where f: "positions want = Some found" "found \<noteq> []"
      by (cases "positions want") auto
    from first_of_sort_by_level [OF f(2)] obtain e where
      e: "first_of (sort_by_level found) = Inr e" "e \<in> set found" by blast
    from assms f(1) e(2) have "length (snd (snd (snd e))) = 4"
      by (auto simp: all_occurrences_def)
    from row_pk_total [OF this] obtain row where "row_pk U want e = Inr row" ..
    with f e Cons.IH [of "rows @ [row]"] show ?thesis by simp
  qed
qed

lemma main_rows_pk_rows:
  assumes "main_rows_pk U show_missing positions wanted rows = Inr out"
  shows "set rows \<subseteq> set out \<and>
    (\<forall>r\<in>set out. r \<in> set rows \<or>
       (\<exists>w\<in>set wanted. hd r = w \<and>
          (found_list (positions w) = [] \<longrightarrow> show_missing \<and> r = missing_row w))) \<and>
    (show_missing \<longrightarrow>
       (\<forall>w\<in>set wanted. found_list (positions w) = [] \<longrightarrow> missing_row w \<in> set out))"
  using assms
proof (induction wanted arbitrary: rows)
  case Nil
  then show ?case by simp
next
  case (Cons want rest)
  show ?case
  proof (cases "found_list (positions want) = []")
    case True
    show ?thesis
    proof (cases show_missing)
      case sm: True
      with True Cons.prems
      have "main_rows_pk U show_missing positions rest (rows @ [missing_row want]) = Inr out"
        by simp
      from Cons.IH [OF this] True sm show ?thesis
        by (auto simp: missing_row_def)
    next
      case sm: False
      with True Cons.prems
      have "main_rows_pk U show_missing positions rest rows = Inr out" by simp
      from Cons.IH [OF this] sm show ?thesis by auto
    qed
  next
    case False
    with Cons.prems obtain e row where
      r: "row_pk U want e = Inr row"
      "main_rows_pk U show_missing positions rest (rows @ [row]) = Inr out"
      by (auto simp: Let_def split: sum.splits)
    from row_pk_first_field [OF r(1)] have "hd row = want" by simp
    with Cons.IH [OF r(2)] False show ?thesis by auto
  qed
qed

lemma rows_example:
  "main_rows_pk ascii True (find_char_positions ascii (parse_pke ascii pke_example))
     [[97], [122], [64]] [] =
   Inr [[str ''a'', str ''a'', DASH, str ''a'', str ''Tecla(a)''],
        missing_row (str ''z''),
        [str ''@'', str ''q'', str ''AltGr'', str ''at'', str ''AltGr+Tecla(q)'']]"
  "main_rows_pk ascii False (find_char_positions ascii (parse_pke ascii pke_example))
     [[97], [122], [64]] [] =
   Inr [[str ''a'', str ''a'', DASH, str ''a'', str ''Tecla(a)''],
        [str ''@'', str ''q'', str ''AltGr'', str ''at'', str ''AltGr+Tecla(q)'']]"
  by (simp_all add: find_char_positions_eq parse_pke_eq index_example sort_by_level_def
      first_of_def row_pk_def lvl_to_combo_def prefer_key_label_pk_def keysym_to_char_pk_def
      KEYSYM_TO_CHAR_pk_def startswith_def DEAD_PREFIX_def isalnum_def ascii_sel NoSymbol_def)

text \<open>
  Claim C9. \<open>positions\<close> is the index of a parsed raw mapping and \<open>want\<close> a requested
  character that the index does not hold. The loop of \<open>main\<close> returns its rows with the
  option on and with the option off. With the option on the rows contain the row of
  placeholders for \<open>want\<close>, and every row whose first field is \<open>want\<close> is that row; with
  the option off no row has \<open>want\<close> as its first field.
\<close>

theorem missing_characters:
  assumes idx: "positions = find_char_positions U (parse_pke U pke)"
    and want: "want \<in> set wanted"
    and absent: "found_list (positions want) = []"
  shows "\<exists>rows_all rows_found.
    main_rows_pk U True positions wanted [] = Inr rows_all \<and>
    main_rows_pk U False positions wanted [] = Inr rows_found \<and>
    missing_row want \<in> set rows_all \<and>
    (\<forall>r\<in>set rows_all. hd r = want \<longrightarrow> r = missing_row want) \<and>
    (\<forall>r\<in>set rows_found. hd r \<noteq> want)"
proof -
  have inv: "all_occurrences (\<lambda>e. length (snd (snd (snd e))) = 4) positions"
    unfolding all_occurrences_def
  proof (intro allI impI ballI)
    fix c es e
    assume h: "positions c = Some es" "e \<in> set es"
    obtain code lvl ksym syms where e: "e = (code, lvl, ksym, syms)" by (cases e)
    from h e idx have "build_positions (parse_xmodmap_pke U pke) c = Some es"
        "(code, lvl, ksym, syms) \<in> set es"
      by (simp_all add: find_char_positions_eq parse_pke_eq)
    from build_positions_occurrence [OF this]
    have "(code, syms) \<in> set (parse_xmodmap_pke U pke)" by simp
    from parse_xmodmap_pke_row_length [OF this] e show "length (snd (snd (snd e))) = 4" by simp
  qed
  from main_rows_pk_total [OF inv] obtain rows_all where
    a: "main_rows_pk U True positions wanted [] = Inr rows_all" by blast
  from main_rows_pk_total [OF inv] obtain rows_found where
    f: "main_rows_pk U False positions wanted [] = Inr rows_found" by blast
  from main_rows_pk_rows [OF a] want absent have "missing_row want \<in> set rows_all" by simp
  moreover from main_rows_pk_rows [OF a] absent
  have "\<forall>r\<in>set rows_all. hd r = want \<longrightarrow> r = missing_row want" by auto
  moreover from main_rows_pk_rows [OF f] absent
  have "\<forall>r\<in>set rows_found. hd r \<noteq> want" by auto
  ultimately show ?thesis using a f by blast
qed

theorem missing_characters_witness:
  "[122] \<in> set [[97], [122], [64]] \<and>
   found_list (find_char_positions ascii (parse_pke ascii pke_example) [122]) = [] \<and>
   main_rows_pk ascii True (find_char_positions ascii (parse_pke ascii pke_example))
     [[97], [122], [64]] [] =
   Inr [[str ''a'', str ''a'', DASH, str ''a'', str ''Tecla(a)''],
        [str ''z'', DASH, DASH, DASH, str ''No hallado en este layout''],
        [str ''@'', str ''q'', str ''AltGr'', str ''at'', str ''AltGr+Tecla(q)'']] \<and>
   main_rows_pk ascii False (find_char_positions ascii (parse_pke ascii pke_example))
     [[97], [122], [64]] [] =
   Inr [[str ''a'', str ''a'', DASH, str ''a'', str ''Tecla(a)''],
        [str ''@'', str ''q'', str ''AltGr'', str ''at'', str ''AltGr+Tecla(q)'']] \<and>
   (\<exists>rows_all rows_found.
      main_rows_pk ascii True (find_char_positions ascii (parse_pke ascii pke_example))
        [[97], [122], [64]] [] = Inr rows_all \<and>
      main_rows_pk ascii False (find_char_positions ascii (parse_pke ascii pke_example))
        [[97], [122], [64]] [] = Inr rows_found \<and>
      missing_row [122] \<in> set rows_all \<and>
      (\<forall>r\<in>set rows_all. hd r = [122] \<longrightarrow> r = missing_row [122]) \<and>
      (\<forall>r\<in>set rows_found. hd r \<noteq> [122]))"
proof -
  have w: "[122] \<in> set [[97], [122], [64::nat]]" by simp
  have a: "found_list (find_char_positions ascii (parse_pke ascii pke_example) [122]) = []"
    by (simp add: find_char_positions_eq parse_pke_eq index_example)
  from missing_characters [OF refl w a] rows_example w a show ?thesis
    by (simp add: missing_row_def)
qed

section \<open>The marker of an unknown base keycode\<close>

lemmas qmk_eval =
  qmk_combo_for_def qmk_base_for_def qmk_base_last_chance_def level_to_combo_def unknown_base_def
  base_keysym_of_def NoSymbol_def qmk_base_direct_def isalpha_def isdigit_def upper_def ascii_sel
  BASE_KEYSYM_TO_QMK_qmk_def upt_conv_Cons prefer_key_label_qmk_def keysym_to_char_qmk_def
  startswith_def DEAD_PREFIX_def KEYSYM_TO_CHAR_qmk_def Let_def

lemma marker_keysym_unknown_base:
  "marker_keysym (unknown_base b) = Some b"
  "marker_keysym (str ''S('' @ unknown_base b @ str '')'') = Some b"
  "marker_keysym (str ''RALT('' @ unknown_base b @ str '')'') = Some b"
  "marker_keysym (str ''S(RALT('' @ unknown_base b @ str ''))'') = Some b"
  by (simp_all add: marker_keysym_def unknown_base_def startswith_def butlast_append)

lemma qmk_base_for_unknown:
  assumes "falsy (qmk_base_direct U (base_keysym_of s0 ksym))"
    and "prefer_key_label_qmk (s0 # rest) = Inr key_label"
    and "\<not> (length key_label = 1 \<and> isalpha U key_label)"
    and "\<not> (length key_label = 1 \<and> isdigit U key_label)"
  shows "qmk_base_for U ksym (s0 # rest) = Inr (unknown_base (base_keysym_of s0 ksym))"
  using assms
  by (cases "qmk_base_direct U (base_keysym_of s0 ksym)")
     (auto simp: qmk_base_for_def qmk_base_last_chance_def Let_def)

lemma live_marker:
  assumes "falsy (base_kc U base_char)"
  shows "qmk_from_char_and_mods U base_char sh ralt =
    (if sh \<and> ralt then str ''S(RALT(<KC_BASE_DESCONOCIDA>))''
     else if ralt then str ''RALT(<KC_BASE_DESCONOCIDA>)''
     else if sh then str ''S(<KC_BASE_DESCONOCIDA>)''
     else str ''<KC_BASE_DESCONOCIDA>'')"
  using assms by (cases "base_kc U base_char") (auto simp: qmk_from_char_and_mods_def)

lemma base_kc_dollar_percent:
  "base_kc ascii (Some [36]) = None"
  "base_kc ascii (Some [37]) = None"
  by (simp_all add: base_kc_def BASE_KEYSYM_TO_QMK_live_def EXTRA_CHAR_TO_QMK_def isalpha_def
      ascii_sel upt_conv_Cons)

text \<open>
  Claim C3, as stated, fails for the live suggestion function. For the characters \<open>$\<close>
  (36) and \<open>%\<close> (37) every lookup of \<open>qmk_from_char_and_mods\<close> fails, and both results
  are the same fixed string \<open><KC_BASE_DESCONOCIDA>\<close>, in which the character \<open>$\<close> does not
  occur: the character cannot be read back from it.
\<close>

theorem live_marker_counterexample:
  "base_kc ascii (Some (str ''$'')) = None \<and>
   base_kc ascii (Some (str ''%'')) = None \<and>
   qmk_from_char_and_mods ascii (Some (str ''$'')) False False = str ''<KC_BASE_DESCONOCIDA>'' \<and>
   qmk_from_char_and_mods ascii (Some (str ''%'')) False False = str ''<KC_BASE_DESCONOCIDA>'' \<and>
   36 \<notin> set (qmk_from_char_and_mods ascii (Some (str ''$'')) False False)"
  by (simp add: base_kc_dollar_percent qmk_from_char_and_mods_def)

text \<open>
  Claim C3, amended. Static resolver: when the direct rule and the table give nothing for
  the base symbol (the level-0 symbol of the row, or the symbol of the occurrence when
  level 0 is \<open>NoSymbol\<close>) and the label of the row is neither one letter nor one digit,
  \<open>qmk_combo_for\<close> returns an expression that contains the marker
  \<open><KC_BASE_DESCONOCIDA:keysym=B>\<close> for the base symbol \<open>B\<close>, and \<open>B\<close> is read back from the
  expression. Live suggestion: when every lookup fails, \<open>qmk_from_char_and_mods\<close> returns
  the fixed marker \<open><KC_BASE_DESCONOCIDA>\<close>, wrapped by the two flags; it does not depend on
  the character and carries no symbol.
\<close>

theorem unknown_base_marker:
  "(falsy (qmk_base_direct U (base_keysym_of s0 ksym)) \<and>
    prefer_key_label_qmk (s0 # rest) = Inr key_label \<and>
    \<not> (length key_label = 1 \<and> isalpha U key_label) \<and>
    \<not> (length key_label = 1 \<and> isdigit U key_label) \<longrightarrow>
    (\<exists>q pre post.
       qmk_combo_for U (code, lvl, ksym, s0 # rest) = Inr (level_to_combo lvl, ksym, q) \<and>
       q = pre @ unknown_base (base_keysym_of s0 ksym) @ post \<and>
       marker_keysym q = Some (base_keysym_of s0 ksym))) \<and>
   (falsy (base_kc U base_char) \<longrightarrow>
    qmk_from_char_and_mods U base_char shift_held ralt =
      (if shift_held \<and> ralt then str ''S(RALT(<KC_BASE_DESCONOCIDA>))''
       else if ralt then str ''RALT(<KC_BASE_DESCONOCIDA>)''
       else if shift_held then str ''S(<KC_BASE_DESCONOCIDA>)''
       else str ''<KC_BASE_DESCONOCIDA>''))"
proof (intro conjI impI)
  assume h: "falsy (qmk_base_direct U (base_keysym_of s0 ksym)) \<and>
    prefer_key_label_qmk (s0 # rest) = Inr key_label \<and>
    \<not> (length key_label = 1 \<and> isalpha U key_label) \<and>
    \<not> (length key_label = 1 \<and> isdigit U key_label)"
  let ?b = "base_keysym_of s0 ksym"
  let ?m = "unknown_base ?b"
  from h qmk_base_for_unknown [of U s0 ksym rest key_label]
  have b: "qmk_base_for U ksym (s0 # rest) = Inr ?m" by blast
  consider "lvl = 0" | "lvl = 1" | "lvl = 2" | "lvl \<noteq> 0 \<and> lvl \<noteq> 1 \<and> lvl \<noteq> 2" by blast
  then show "\<exists>q pre post.
       qmk_combo_for U (code, lvl, ksym, s0 # rest) = Inr (level_to_combo lvl, ksym, q) \<and>
       q = pre @ ?m @ post \<and> marker_keysym q = Some ?b"
  proof cases
    case 1
    with b have "qmk_combo_for U (code, lvl, ksym, s0 # rest) = Inr (level_to_combo lvl, ksym, ?m)"
      by (simp add: qmk_combo_for_def)
    moreover have "?m = [] @ ?m @ []" by simp
    ultimately show ?thesis using marker_keysym_unknown_base(1) by blast
  next
    case 2
    with b have "qmk_combo_for U (code, lvl, ksym, s0 # rest) =
        Inr (level_to_combo lvl, ksym, str ''S('' @ ?m @ str '')'')"
      by (simp add: qmk_combo_for_def)
    then show ?thesis using marker_keysym_unknown_base(2) by blast
  next
    case 3
    with b have "qmk_combo_for U (code, lvl, ksym, s0 # rest) =
        Inr (level_to_combo lvl, ksym, str ''RALT('' @ ?m @ str '')'')"
      by (simp add: qmk_combo_for_def)
    then show ?thesis using marker_keysym_unknown_base(3) by blast
  next
    case 4
    with b have "qmk_combo_for U (code, lvl, ksym, s0 # rest) =
        Inr (level_to_combo lvl, ksym, str ''S(RALT('' @ ?m @ str ''))'')"
      by (simp add: qmk_combo_for_def)
    then show ?thesis using marker_keysym_unknown_base(4) by blast
  qed
next
  assume "falsy (base_kc U base_char)"
  then show "qmk_from_char_and_mods U base_char shift_held ralt =
      (if shift_held \<and> ralt then str ''S(RALT(<KC_BASE_DESCONOCIDA>))''
       else if ralt then str ''RALT(<KC_BASE_DESCONOCIDA>)''
       else if shift_held then str ''S(<KC_BASE_DESCONOCIDA>)''
       else str ''<KC_BASE_DESCONOCIDA>'')"
    by (rule live_marker)
qed

theorem unknown_base_marker_witness:
  "falsy (qmk_base_direct ascii (base_keysym_of (str ''less'') (str ''greater''))) \<and>
   prefer_key_label_qmk [str ''less'', str ''greater'', NoSymbol, NoSymbol] = Inr (str ''<'') \<and>
   \<not> (length (str ''<'') = 1 \<and> isalpha ascii (str ''<'')) \<and>
   \<not> (length (str ''<'') = 1 \<and> isdigit ascii (str ''<'')) \<and>
   qmk_combo_for ascii (94, 1, str ''greater'', [str ''less'', str ''greater'', NoSymbol, NoSymbol]) =
     Inr (str ''Shift+'', str ''greater'', str ''S(<KC_BASE_DESCONOCIDA:keysym=less>)'') \<and>
   marker_keysym (str ''S(<KC_BASE_DESCONOCIDA:keysym=less>)'') = Some (str ''less'') \<and>
   falsy (base_kc ascii None) \<and>
   qmk_from_char_and_mods ascii None False True = str ''RALT(<KC_BASE_DESCONOCIDA>)''"
proof -
  let ?row = "[str ''less'', str ''greater'', NoSymbol, NoSymbol]"
  have h: "falsy (qmk_base_direct ascii (base_keysym_of (str ''less'') (str ''greater''))) \<and>
      prefer_key_label_qmk (str ''less'' # [str ''greater'', NoSymbol, NoSymbol]) = Inr (str ''<'') \<and>
      \<not> (length (str ''<'') = 1 \<and> isalpha ascii (str ''<'')) \<and>
      \<not> (length (str ''<'') = 1 \<and> isdigit ascii (str ''<''))"
    by (simp add: qmk_eval)
  have l: "falsy (base_kc ascii None)" by (simp add: base_kc_def)
  have b: "base_keysym_of (str ''less'') (str ''greater'') = str ''less''"
    by (simp add: base_keysym_of_def NoSymbol_def)
  from unknown_base_marker [of ascii "str ''less''" "str ''greater''"
      "[str ''greater'', NoSymbol, NoSymbol]" "str ''<''" 94 1 None False True] h l
  obtain q where
    q: "qmk_combo_for ascii (94, 1, str ''greater'', ?row) = Inr (level_to_combo 1, str ''greater'', q)"
       "marker_keysym q = Some (base_keysym_of (str ''less'') (str ''greater''))"
    and v: "qmk_from_char_and_mods ascii None False True = str ''RALT(<KC_BASE_DESCONOCIDA>)''"
    by auto
  have e: "qmk_combo_for ascii (94, 1, str ''greater'', ?row) =
      Inr (str ''Shift+'', str ''greater'', str ''S(<KC_BASE_DESCONOCIDA:keysym=less>)'')"
    by (simp add: qmk_eval)
  with q have "q = str ''S(<KC_BASE_DESCONOCIDA:keysym=less>)''" by simp
  with q(2) b have "marker_keysym (str ''S(<KC_BASE_DESCONOCIDA:keysym=less>)'') = Some (str ''less'')"
    by simp
  with h l e v show ?thesis by simp
qed

section \<open>The modifier flags of the live inspector\<close>

text \<open>
  Claim C8. Backend A: a press whose keysym is none of the modifier keysyms leaves the
  flags as they were, and the event built for it carries exactly these flags; the
  release of such a key leaves the flags as they were too. Backend B: an event (press,
  release or repeat) whose key name is none of the modifier key names leaves the flags
  as they were, and the event put on the queue, if any, carries exactly these flags.
\<close>

theorem non_modifier_press_keeps_flags:
  "(keysym event \<notin> set tk_modifier_keysyms \<longrightarrow>
      fst (on_keypress_tk mods event) = mods \<and>
      shift (snd (on_keypress_tk mods event)) = tk_Shift mods \<and>
      alt_l (snd (on_keypress_tk mods event)) = tk_Alt_L mods \<and>
      alt_r (snd (on_keypress_tk mods event)) = tk_Alt_R mods \<and>
      meta (snd (on_keypress_tk mods event)) = tk_Meta mods \<and>
      super (snd (on_keypress_tk mods event)) = tk_Super mods \<and>
      on_keyrelease_tk mods event = mods) \<and>
   (keyname_of KEY scancode \<notin> set ev_modifier_keynames \<longrightarrow>
      fst (evdev_key_event KEY emods scancode state) = emods \<and>
      (case snd (evdev_key_event KEY emods scancode state) of
         None \<Rightarrow> True
       | Some info \<Rightarrow>
           ctrl info = ev_Ctrl emods \<and> shift info = ev_Shift emods \<and>
           alt_l info = ev_Alt_L emods \<and> alt_r info = ev_Alt_R emods \<and>
           super info = ev_Super emods))"
  by (simp add: on_keypress_tk_def on_keyrelease_tk_def evdev_key_event_def
      tk_modifier_keysyms_def ev_modifier_keynames_def Let_def)

theorem non_modifier_press_keeps_flags_witness:
  "keysym press_a \<notin> set tk_modifier_keysyms \<and>
   fst (on_keypress_tk (tk_mods_init\<lparr>tk_Shift := True\<rparr>) press_a) = tk_mods_init\<lparr>tk_Shift := True\<rparr> \<and>
   shift (snd (on_keypress_tk (tk_mods_init\<lparr>tk_Shift := True\<rparr>) press_a)) \<and>
   keyname_of KEY_sample 30 \<notin> set ev_modifier_keynames \<and>
   fst (evdev_key_event KEY_sample (ev_mods_init\<lparr>ev_Alt_R := True\<rparr>) 30 key_down) =
     ev_mods_init\<lparr>ev_Alt_R := True\<rparr>"
proof -
  have a: "keysym press_a \<notin> set tk_modifier_keysyms"
    by (simp add: press_a_def tk_modifier_keysyms_def)
  have b: "keyname_of KEY_sample 30 \<notin> set ev_modifier_keynames"
    by (simp add: keyname_of_def KEY_sample_def ev_modifier_keynames_def)
  from non_modifier_press_keeps_flags [of press_a "tk_mods_init\<lparr>tk_Shift := True\<rparr>" KEY_sample 30
      "ev_mods_init\<lparr>ev_Alt_R := True\<rparr>" key_down] a b
  show ?thesis by simp
qed

section \<open>AltGr held while a letter is pressed\<close>

lemma base_kc_empty: "base_kc U (Some []) = None"
  by (simp add: base_kc_def)

text \<open>
  Claim C7. Backend A receives the press \<open>e1\<close> of \<open>Alt_R\<close>, \<open>ISO_Level3_Shift\<close> or
  \<open>Mode_switch\<close> and then the press \<open>e2\<close> of a key whose character resolves to the base
  keycode \<open>kc\<close>. The event built for \<open>e2\<close> has the AltRight flag set and carries the
  character, and its suggestion is \<open>RALT(kc)\<close>; when Shift is held as well (the flag was
  set before, or \<open>e2\<close> is itself a Shift key) the suggestion is \<open>RALT(kc)\<close> inside \<open>S(...)\<close>.
\<close>

theorem altgr_alias_then_letter:
  assumes "keysym e1 \<in> set [str ''Alt_R'', str ''ISO_Level3_Shift'', str ''Mode_switch'']"
    and "base_kc U (Some (event_char e2)) = Some kc" and "kc \<noteq> []"
  shows "alt_r (snd (on_keypress_tk (fst (on_keypress_tk mods e1)) e2)) \<and>
    altgr (snd (on_keypress_tk (fst (on_keypress_tk mods e1)) e2)) \<and>
    char (snd (on_keypress_tk (fst (on_keypress_tk mods e1)) e2)) = event_char e2 \<and>
    qmk_suggestion U (snd (on_keypress_tk (fst (on_keypress_tk mods e1)) e2)) =
      (if tk_Shift mods \<or> keysym e2 \<in> set [str ''Shift_L'', str ''Shift_R'']
       then str ''S(RALT('' @ kc @ str ''))''
       else str ''RALT('' @ kc @ str '')'')"
proof -
  let ?m1 = "fst (on_keypress_tk mods e1)"
  let ?info = "snd (on_keypress_tk ?m1 e2)"
  from assms(1) have m1: "?m1 = mods\<lparr>tk_Alt_R := True\<rparr>"
    by (auto simp: on_keypress_tk_def Let_def)
  from assms(2) have ne: "event_char e2 \<noteq> []"
    by (auto simp: base_kc_empty)
  have a: "alt_r ?info" unfolding m1
    by (simp add: on_keypress_tk_def Let_def)
  have s: "shift ?info \<longleftrightarrow> tk_Shift mods \<or> keysym e2 \<in> set [str ''Shift_L'', str ''Shift_R'']"
    unfolding m1 by (simp add: on_keypress_tk_def Let_def)
  have c: "char ?info = event_char e2"
    by (simp add: on_keypress_tk_def Let_def)
  from a c ne assms(2,3) have "qmk_suggestion U ?info =
      (if shift ?info then str ''S(RALT('' @ kc @ str ''))'' else str ''RALT('' @ kc @ str '')'')"
    by (simp add: qmk_suggestion_def altgr_def qmk_from_char_and_mods_def Let_def)
  with a c s show ?thesis by (simp add: altgr_def)
qed

theorem altgr_alias_then_letter_witness:
  "keysym press_level3 \<in> set [str ''Alt_R'', str ''ISO_Level3_Shift'', str ''Mode_switch''] \<and>
   base_kc ascii (Some (event_char press_a)) = Some (str ''KC_A'') \<and>
   alt_r (snd (on_keypress_tk (fst (on_keypress_tk tk_mods_init press_level3)) press_a)) \<and>
   char (snd (on_keypress_tk (fst (on_keypress_tk tk_mods_init press_level3)) press_a)) = str ''a'' \<and>
   qmk_suggestion ascii (snd (on_keypress_tk (fst (on_keypress_tk tk_mods_init press_level3)) press_a)) =
     str ''RALT(KC_A)''"
proof -
  have a: "keysym press_level3 \<in> set [str ''Alt_R'', str ''ISO_Level3_Shift'', str ''Mode_switch'']"
    by (simp add: press_level3_def)
  have d: "base_kc ascii (Some (event_char press_a)) = Some (str ''KC_A'')"
    by (simp add: press_a_def base_kc_def BASE_KEYSYM_TO_QMK_live_def upt_conv_Cons)
  have e: "str ''KC_A'' \<noteq> []" by simp
  have f: "\<not> (tk_Shift tk_mods_init \<or> keysym press_a \<in> set [str ''Shift_L'', str ''Shift_R''])"
    by (simp add: tk_mods_init_def press_a_def)
  have g: "event_char press_a = str ''a''" by (simp add: press_a_def)
  from altgr_alias_then_letter [OF a d e, of tk_mods_init] a d f g show ?thesis by simp
qed

section \<open>Key presses that backend B does not report\<close>

text \<open>
  Claim C2. The claim does not hold of the code: \<open>_evdev_loop\<close> reports a press only when
  the key name starts with neither \<open>KEY_LEFT\<close> nor \<open>KEY_RIGHT\<close>. The test is meant to
  leave out the modifier keys, but the left arrow \<open>KEY_LEFT\<close> (scancode 105) and the
  bracket key \<open>KEY_LEFTBRACE\<close> (scancode 26) are not modifier keys, and their presses put
  nothing on the queue. The press of \<open>KEY_A\<close> (scancode 30) is reported, with the flags
  and an empty character.
\<close>

theorem arrow_key_press_not_emitted:
  "keyname_of KEY_sample 105 = str ''KEY_LEFT'' \<and>
   keyname_of KEY_sample 105 \<notin> set ev_modifier_keynames \<and>
   evdev_key_event KEY_sample ev_mods_init 105 key_down = (ev_mods_init, None) \<and>
   keyname_of KEY_sample 26 = str ''KEY_LEFTBRACE'' \<and>
   evdev_key_event KEY_sample ev_mods_init 26 key_down = (ev_mods_init, None) \<and>
   evdev_loop KEY_sample [EV_KEY 105 key_down, EV_KEY 105 key_up, EV_KEY 26 key_down]
     ev_mods_init [] = (ev_mods_init, []) \<and>
   snd (evdev_key_event KEY_sample ev_mods_init 30 key_down) =
     Some \<lparr>source = str ''evdev'', key = str ''KEY_A'', char = [], ctrl = False, shift = False,
            alt_l = False, alt_r = False, meta = False, super = False,
            comment = str ''scancode=30''\<rparr>"
  by (simp add: keyname_of_def KEY_sample_def ev_modifier_keynames_def evdev_key_event_def
      startswith_def ev_mods_init_def Let_def str_of_nat.simps)

end
